theory Spec2Isabelle
  imports Main
begin

section \<open>The image generation wrapper: data\<close>

text \<open>
  The wrapper is the second document of \<^verbatim>\<open>backend/src/controllers/orders.ts\<close>
  (lines 156 to 364), imported by the router as \<^verbatim>\<open>utils/aiUtils\<close>.

  Conventions of the embedding.
  \<^item> A JavaScript string is a list of code units; the model covers code units below 256.
    \<^verbatim>\<open>toLowerCase\<close> is modelled on the letters \<^verbatim>\<open>A-Z\<close>: what it does to the other code
    units below 256 never reaches \<^verbatim>\<open>[a-z0-9]\<close>, so it does not show in a cache key.
  \<^item> The fields \<^verbatim>\<open>model\<close>, \<^verbatim>\<open>size\<close>, \<^verbatim>\<open>quality\<close> and \<^verbatim>\<open>style\<close> of the options carry
    the prefix \<open>opt_\<close> (\<open>size\<close> is a constant of HOL).
  \<^item> The loop counter is an integer. \<^verbatim>\<open>maxRetries\<close> is any finite JavaScript number, as
    the body of a request can carry: the type \<open>number\<close> below keeps of it what the code
    observes, how it compares with the counter and how it prints.
  \<^item> Time is a clock in milliseconds carried by the state. It moves only while the code
    sleeps (by the delay asked for) and while an outbound request is in flight (by the
    latency the environment gives); calls are sequential.
  \<^item> Every effect of the source is recorded in a trace, at the place the source performs it.
\<close>

datatype model = DallE3 | DallE2

datatype image_size = S256x256 | S512x512 | S1024x1024 | S1792x1024 | S1024x1792

datatype quality = Standard | Hd

datatype style = Vivid | Natural

fun model_str :: "model \<Rightarrow> string" where
  "model_str DallE3 = ''dall-e-3''"
| "model_str DallE2 = ''dall-e-2''"

fun size_str :: "image_size \<Rightarrow> string" where
  "size_str S256x256 = ''256x256''"
| "size_str S512x512 = ''512x512''"
| "size_str S1024x1024 = ''1024x1024''"
| "size_str S1792x1024 = ''1792x1024''"
| "size_str S1024x1792 = ''1024x1792''"

fun quality_str :: "quality \<Rightarrow> string" where
  "quality_str Standard = ''standard''"
| "quality_str Hd = ''hd''"

fun style_str :: "style \<Rightarrow> string" where
  "style_str Vivid = ''vivid''"
| "style_str Natural = ''natural''"

text \<open>
  A finite JavaScript number: \<open>Whole n\<close> is the integer \<open>n\<close> (a safe integer, which
  prints as its decimal digits); \<open>Between n s\<close> is a number that is not an integer, lies
  between \<open>n\<close> and \<open>n + 1\<close> and prints as \<open>s\<close>, as 2.5 is \<open>Between 2 ''2.5''\<close>.
\<close>

datatype number = Whole int | Between int string

text \<open>\<^verbatim>\<open>interface ImageGenerationOptions\<close>: every field is optional.\<close>

record ImageGenerationOptions =
  opt_model :: "model option"
  opt_size :: "image_size option"
  opt_quality :: "quality option"
  opt_style :: "style option"
  maxRetries :: "number option"
  useCache :: "bool option"

text \<open>\<^verbatim>\<open>interface ImageGenerationResult\<close>.\<close>

record ImageGenerationResult =
  imageUrl :: string
  revisedPrompt :: "string option"
  fromCache :: bool
  attempts :: int

text \<open>
  What the wrapper throws: \<^verbatim>\<open>new Error(message, { cause: { status } })\<close>.
\<close>

record thrown =
  message :: string
  status :: nat

text \<open>
  What a failed outbound request throws: \<^verbatim>\<open>error.message\<close>, and
  \<^verbatim>\<open>error.response?.data?.error?.message\<close> when the API answered with an error body.
\<close>

record call_error =
  error_message :: string
  response_message :: "string option"

text \<open>The JSON body of the request (lines 265 to 277); \<^verbatim>\<open>n\<close> and
  \<^verbatim>\<open>response_format\<close> are constants.\<close>

record requestBody =
  req_model :: model
  req_prompt :: string
  req_size :: image_size
  req_quality :: "quality option"
  req_style :: "style option"

text \<open>
  The outcome of \<^verbatim>\<open>axios.post\<close> followed by the two reads of
  \<^verbatim>\<open>response.data.data[0]\<close>: both are inside the \<^verbatim>\<open>try\<close> block, so a timeout,
  a network or API error and a malformed body all arrive in the \<^verbatim>\<open>catch\<close> clause.
\<close>

datatype outcome = Failed call_error | Responded string "string option"

text \<open>
  The surroundings of the module: the credential read from the process environment when
  the module loads, and the remote service, which gives the latency (in milliseconds) and
  the outcome of the \<open>n\<close>-th request the process sends.
\<close>

record environment =
  OPENAI_API_KEY :: "string option"
  service :: "nat \<Rightarrow> requestBody \<Rightarrow> nat \<times> outcome"

datatype event =
    CacheGet string
  | CacheSet string
  | AttemptStart int
  | RateLimitWait int
  | Post int requestBody
  | BackoffWait int

text \<open>
  In the trace, \<open>AttemptStart k\<close> is the start of iteration \<open>k\<close> of the retry loop
  (line 260), \<open>RateLimitWait ms\<close> the sleep of line 210, \<open>Post t body\<close> the request
  of line 279 sent at time \<open>t\<close>, and \<open>BackoffWait ms\<close> the sleep of line 325;
  \<open>CacheGet\<close> and \<open>CacheSet\<close> are the calls of lines 243 and 304, with their key.
\<close>

text \<open>
  Modelled from the spec: the store of the \<^verbatim>\<open>node-cache\<close> package, which is not part of
  the repository. The spec gives a cache entry the result payload and its insertion time;
  an entry expires a fixed time to live after its insertion, and expiry is checked when
  the entry is read.
\<close>

type_synonym cache_store = "string \<rightharpoonup> ImageGenerationResult \<times> int"

record world =
  imageCache :: cache_store
  lastApiCall :: int
  clock :: int
  sent :: nat
  trace :: "event list"

definition stdTTL :: int where
  "stdTTL = 3600"

definition MIN_DELAY :: int where
  "MIN_DELAY = 1000"

text \<open>Modelled from the spec: reading the store at time \<open>t\<close> returns an entry
  only while its time to live (in seconds) has not elapsed.\<close>

definition cache_get :: "cache_store \<Rightarrow> int \<Rightarrow> string \<Rightarrow> ImageGenerationResult option" where
  "cache_get c t k =
     (case c k of
        None \<Rightarrow> None
      | Some (v, inserted) \<Rightarrow> if t \<le> inserted + stdTTL * 1000 then Some v else None)"

text \<open>Modelled from the spec: writing the store at time \<open>t\<close> gives the entry a
  fresh time to live.\<close>

definition cache_set :: "cache_store \<Rightarrow> int \<Rightarrow> string \<Rightarrow> ImageGenerationResult \<Rightarrow> cache_store" where
  "cache_set c t k v = c(k \<mapsto> (v, t))"

text \<open>The state when the module has just been loaded at time \<open>t\<close>.\<close>

definition initial_world :: "int \<Rightarrow> world" where
  "initial_world t =
     \<lparr>imageCache = Map.empty, lastApiCall = 0, clock = t, sent = 0, trace = []\<rparr>"

section \<open>The functions of the module\<close>

definition sleep :: "int \<Rightarrow> world \<Rightarrow> world" where
  "sleep ms w = w\<lparr>clock := clock w + ms\<rparr>"

definition record_event :: "event \<Rightarrow> world \<Rightarrow> world" where
  "record_event e w = w\<lparr>trace := trace w @ [e]\<rparr>"

subsection \<open>Reading the options\<close>

text \<open>The destructuring with defaults of lines 231 to 238 (and of line 196).\<close>

definition model_of :: "ImageGenerationOptions \<Rightarrow> model" where
  "model_of options = (case opt_model options of None \<Rightarrow> DallE3 | Some m \<Rightarrow> m)"

definition size_of :: "ImageGenerationOptions \<Rightarrow> image_size" where
  "size_of options = (case opt_size options of None \<Rightarrow> S1024x1024 | Some z \<Rightarrow> z)"

definition quality_of :: "ImageGenerationOptions \<Rightarrow> quality" where
  "quality_of options = (case opt_quality options of None \<Rightarrow> Standard | Some q \<Rightarrow> q)"

definition style_of :: "ImageGenerationOptions \<Rightarrow> style" where
  "style_of options = (case opt_style options of None \<Rightarrow> Vivid | Some y \<Rightarrow> y)"

definition maxRetries_of :: "ImageGenerationOptions \<Rightarrow> number" where
  "maxRetries_of options = (case maxRetries options of None \<Rightarrow> Whole 3 | Some n \<Rightarrow> n)"

definition useCache_of :: "ImageGenerationOptions \<Rightarrow> bool" where
  "useCache_of options = (case useCache options of None \<Rightarrow> True | Some b \<Rightarrow> b)"

subsection \<open>createCacheKey\<close>

definition lower_unit :: "char \<Rightarrow> char" where
  "lower_unit c =
     (if 65 \<le> (of_char c :: nat) \<and> (of_char c :: nat) \<le> 90
      then char_of ((of_char c :: nat) + 32) else c)"

definition toLowerCase :: "string \<Rightarrow> string" where
  "toLowerCase s = map lower_unit s"

text \<open>The character class \<^verbatim>\<open>[a-z0-9]\<close>.\<close>

definition in_class :: "char \<Rightarrow> bool" where
  "in_class c =
     ((97 \<le> (of_char c :: nat) \<and> (of_char c :: nat) \<le> 122) \<or>
      (48 \<le> (of_char c :: nat) \<and> (of_char c :: nat) \<le> 57))"

text \<open>\<^verbatim>\<open>.replace(/[^a-z0-9]/g, '_')\<close>.\<close>

definition replace_outside :: "string \<Rightarrow> string" where
  "replace_outside s = map (\<lambda>c. if in_class c then c else CHR ''_'') s"

definition substring_0_50 :: "string \<Rightarrow> string" where
  "substring_0_50 s = take 50 s"

definition createCacheKey :: "string \<Rightarrow> ImageGenerationOptions \<Rightarrow> string" where
  "createCacheKey prompt options =
     ''image_'' @ model_str (model_of options) @ ''_'' @ size_str (size_of options) @ ''_''
       @ quality_str (quality_of options) @ ''_'' @ style_str (style_of options) @ ''_''
       @ substring_0_50 (replace_outside (toLowerCase prompt))"

subsection \<open>enforceRateLimit\<close>

definition enforceRateLimit :: "world \<Rightarrow> world" where
  "enforceRateLimit w =
     (let now = clock w;
          timeSinceLastCall = now - lastApiCall w;
          w1 = (if timeSinceLastCall < MIN_DELAY
                then (let waitTime = MIN_DELAY - timeSinceLastCall
                      in sleep waitTime (record_event (RateLimitWait waitTime) w))
                else w)
      in w1\<lparr>lastApiCall := clock w1\<rparr>)"

subsection \<open>Comparing the loop counter with maxRetries\<close>

text \<open>\<^verbatim>\<open>attempt <= maxRetries\<close>, \<^verbatim>\<open>attempt === maxRetries\<close> and, for the statements
  below, \<^verbatim>\<open>maxRetries <= k\<close> and \<^verbatim>\<open>Math.floor(maxRetries)\<close>.\<close>

fun counter_le :: "int \<Rightarrow> number \<Rightarrow> bool" where
  "counter_le k (Whole n) = (k \<le> n)"
| "counter_le k (Between n s) = (k \<le> n)"

fun counter_eq :: "int \<Rightarrow> number \<Rightarrow> bool" where
  "counter_eq k (Whole n) = (k = n)"
| "counter_eq k (Between n s) = False"


fun floor_of :: "number \<Rightarrow> int" where
  "floor_of (Whole n) = n"
| "floor_of (Between n s) = n"

fun is_whole :: "number \<Rightarrow> bool" where
  "is_whole (Whole n) = True"
| "is_whole (Between n s) = False"

subsection \<open>Messages\<close>

text \<open>A string that may be \<^verbatim>\<open>undefined\<close> is truthy when it is defined and not empty.\<close>

definition truthy :: "string option \<Rightarrow> bool" where
  "truthy v = (case v of None \<Rightarrow> False | Some s \<Rightarrow> s \<noteq> [])"

text \<open>An integer inside a template literal: its decimal digits, after a minus sign
  when it is negative.\<close>

fun digits :: "nat \<Rightarrow> string" where
  "digits n =
     (if n < 10 then [char_of (48 + n)] else digits (n div 10) @ [char_of (48 + n mod 10)])"

declare digits.simps [simp del]

definition decimal :: "int \<Rightarrow> string" where
  "decimal n = (if n < 0 then ''-'' @ digits (nat (- n)) else digits (nat n))"

text \<open>A number inside a template literal.\<close>

fun number_str :: "number \<Rightarrow> string" where
  "number_str (Whole n) = decimal n"
| "number_str (Between n s) = s"

text \<open>Line 331:
  \<^verbatim>\<open>lastError?.response?.data?.error?.message || lastError?.message || 'Unknown error'\<close>.\<close>

definition failure_text :: "call_error option \<Rightarrow> string" where
  "failure_text lastError =
     (case lastError of
        None \<Rightarrow> ''Unknown error''
      | Some e \<Rightarrow>
          if truthy (response_message e) then (case response_message e of Some m \<Rightarrow> m | None \<Rightarrow> [])
          else if error_message e \<noteq> [] then error_message e
          else ''Unknown error'')"

text \<open>Lines 329 to 334: what follows the loop.\<close>

definition allAttemptsFailed :: "number \<Rightarrow> call_error option \<Rightarrow> thrown" where
  "allAttemptsFailed n lastError =
     \<lparr>message = ''Failed to generate image after '' @ number_str n @ '' attempts: ''
                 @ failure_text lastError,
      status = 500\<rparr>"

subsection \<open>The outbound request\<close>

definition requestBody_of :: "string \<Rightarrow> ImageGenerationOptions \<Rightarrow> requestBody" where
  "requestBody_of prompt options =
     \<lparr>req_model = model_of options, req_prompt = prompt, req_size = size_of options,
      req_quality = (if model_of options = DallE3 then Some (quality_of options) else None),
      req_style = (if model_of options = DallE3 then Some (style_of options) else None)\<rparr>"

definition axios_post :: "environment \<Rightarrow> requestBody \<Rightarrow> world \<Rightarrow> outcome \<times> world" where
  "axios_post env body w =
     (snd (service env (sent w) body),
      w\<lparr>clock := clock w + int (fst (service env (sent w) body)),
        sent := Suc (sent w),
        trace := trace w @ [Post (clock w) body]\<rparr>)"

subsection \<open>generateProductImage\<close>

text \<open>
  The retry loop of lines 258 to 327, from the iteration \<open>attempt\<close> on, followed by
  lines 329 to 334. \<^verbatim>\<open>Math.pow(2, attempt)\<close> is \<open>2 ^ nat attempt\<close>: the counter
  starts at 1 and only grows.
\<close>

function attemptLoop ::
  "environment \<Rightarrow> string \<Rightarrow> ImageGenerationOptions \<Rightarrow> int \<Rightarrow> call_error option \<Rightarrow> world
     \<Rightarrow> (thrown + ImageGenerationResult) \<times> world" where
  "attemptLoop env prompt options attempt lastError w =
     (if counter_le attempt (maxRetries_of options) then
        (case axios_post env (requestBody_of prompt options)
                (enforceRateLimit (record_event (AttemptStart attempt) w)) of
           (Responded url revised, w2) \<Rightarrow>
             (let result = \<lparr>imageUrl = url, revisedPrompt = revised,
                            fromCache = False, attempts = attempt\<rparr>
              in (Inr result,
                  if useCache_of options
                  then (record_event (CacheSet (createCacheKey prompt options)) w2)
                         \<lparr>imageCache := cache_set (imageCache w2) (clock w2)
                                           (createCacheKey prompt options) result\<rparr>
                  else w2))
         | (Failed error, w2) \<Rightarrow>
             if counter_eq attempt (maxRetries_of options)
             then (Inl (allAttemptsFailed (maxRetries_of options) (Some error)), w2)
             else (let backoffDelay = 2 ^ nat attempt * 1000
                   in attemptLoop env prompt options (attempt + 1) (Some error)
                        (sleep backoffDelay (record_event (BackoffWait backoffDelay) w2))))
      else (Inl (allAttemptsFailed (maxRetries_of options) lastError), w))"
  by pat_completeness auto
termination
proof (relation "measure (\<lambda>(env, prompt, options, attempt, lastError, w).
                   nat (floor_of (maxRetries_of options) + 1 - attempt))")
  show "wf (measure (\<lambda>(env, prompt, options, attempt, lastError, w).
                   nat (floor_of (maxRetries_of options) + 1 - attempt)))"
    by simp
next
  fix env :: environment and prompt options attempt
    and lastError :: "call_error option" and w :: world
  assume "counter_le attempt (maxRetries_of options)"
  then have "attempt \<le> floor_of (maxRetries_of options)"
    by (cases "maxRetries_of options") simp_all
  then show "((env, prompt, options, attempt + 1, Some e,
               sleep d (record_event (BackoffWait d) w2)),
              (env, prompt, options, attempt, lastError, w))
             \<in> measure (\<lambda>(env, prompt, options, attempt, lastError, w).
                   nat (floor_of (maxRetries_of options) + 1 - attempt))" for e d w2
    by simp
qed

declare attemptLoop.simps [simp del]

definition generateProductImage ::
  "environment \<Rightarrow> string \<Rightarrow> ImageGenerationOptions \<Rightarrow> world
     \<Rightarrow> (thrown + ImageGenerationResult) \<times> world" where
  "generateProductImage env prompt options w =
     (if prompt = [] then (Inl \<lparr>message = ''Prompt is required'', status = 400\<rparr>, w)
      else if \<not> truthy (OPENAI_API_KEY env)
      then (Inl \<lparr>message = ''OpenAI API key not configured'', status = 500\<rparr>, w)
      else if useCache_of options then
        (let cacheKey = createCacheKey prompt options;
             w1 = record_event (CacheGet cacheKey) w
         in case cache_get (imageCache w1) (clock w1) cacheKey of
              Some cached \<Rightarrow> (Inr (cached\<lparr>fromCache := True, attempts := 0\<rparr>), w1)
            | None \<Rightarrow> attemptLoop env prompt options 1 None w1)
      else attemptLoop env prompt options 1 None w)"

section \<open>Observing a call\<close>

text \<open>The events a computation added to the trace, from the state \<open>w\<close> before it
  to the state \<open>w'\<close> after it.\<close>

definition new_events :: "world \<Rightarrow> world \<Rightarrow> event list" where
  "new_events w w' = drop (length (trace w)) (trace w')"

text \<open>The events of the retry schedule: the start of an attempt and a backoff sleep.\<close>

definition retry_event :: "event \<Rightarrow> bool" where
  "retry_event e = (case e of AttemptStart k \<Rightarrow> True | BackoffWait ms \<Rightarrow> True | _ \<Rightarrow> False)"

text \<open>The state of one iteration of the loop when its request has come back
  (lines 260 to 289).\<close>

definition afterPost :: "environment \<Rightarrow> string \<Rightarrow> ImageGenerationOptions \<Rightarrow> int \<Rightarrow> world \<Rightarrow> world" where
  "afterPost env prompt options attempt w =
     snd (axios_post env (requestBody_of prompt options)
            (enforceRateLimit (record_event (AttemptStart attempt) w)))"

text \<open>The events that touch the cache store.\<close>

definition cache_event :: "event \<Rightarrow> bool" where
  "cache_event e = (case e of CacheGet k \<Rightarrow> True | CacheSet k \<Rightarrow> True | _ \<Rightarrow> False)"

text \<open>The delays of the backoff sleeps of a trace, and the times at which its requests
  were sent, both in the order of the trace.\<close>

fun backoff_delays :: "event list \<Rightarrow> int list" where
  "backoff_delays [] = []"
| "backoff_delays (BackoffWait ms # evs) = ms # backoff_delays evs"
| "backoff_delays (e # evs) = backoff_delays evs"

fun post_times :: "event list \<Rightarrow> int list" where
  "post_times [] = []"
| "post_times (Post t body # evs) = t # post_times evs"
| "post_times (e # evs) = post_times evs"

text \<open>Requests are spaced when each one is sent at least \<open>MIN_DELAY\<close> after all the
  requests before it.\<close>

definition spaced :: "int list \<Rightarrow> bool" where
  "spaced ts = sorted_wrt (\<lambda>a b. a + MIN_DELAY \<le> b) ts"

text \<open>What the rate limiter maintains: the requests sent so far are spaced, and none was
  sent after the time \<open>lastApiCall\<close> holds.\<close>

definition rate_limited :: "world \<Rightarrow> bool" where
  "rate_limited w =
     (spaced (post_times (trace w)) \<and> list_all (\<lambda>t. t \<le> lastApiCall w) (post_times (trace w)))"

text \<open>The error of a failed request.\<close>

fun failure_of :: "outcome \<Rightarrow> call_error option" where
  "failure_of (Failed e) = Some e"
| "failure_of (Responded url revised) = None"

text \<open>
  A sequential execution: the calls of a list run one after the other, each one when
  the time \<open>idle\<close> (in milliseconds) has passed since the call before it returned.
\<close>

definition elapse :: "nat \<Rightarrow> world \<Rightarrow> world" where
  "elapse idle w = w\<lparr>clock := clock w + int idle\<rparr>"

fun session :: "environment \<Rightarrow> (nat \<times> string \<times> ImageGenerationOptions) list \<Rightarrow> world \<Rightarrow> world" where
  "session env [] w = w"
| "session env ((idle, prompt, options) # calls) w =
     session env calls (snd (generateProductImage env prompt options (elapse idle w)))"

section \<open>Example inputs\<close>

text \<open>The default value \<^verbatim>\<open>{}\<close> of the parameter \<^verbatim>\<open>options\<close>.\<close>

definition default_options :: ImageGenerationOptions where
  "default_options =
     \<lparr>opt_model = None, opt_size = None, opt_quality = None, opt_style = None,
      maxRetries = None, useCache = None\<rparr>"

text \<open>A service that is down, one that answers every request, and one that fails
  twice before it answers.\<close>

definition env_down :: environment where
  "env_down =
     \<lparr>OPENAI_API_KEY = Some ''sk-test'',
      service = (\<lambda>n body.
        (120, Failed \<lparr>error_message = ''connect ETIMEDOUT'', response_message = None\<rparr>))\<rparr>"

definition env_up :: environment where
  "env_up =
     \<lparr>OPENAI_API_KEY = Some ''sk-test'',
      service = (\<lambda>n body. (900, Responded (''https://img/'' @ req_prompt body) None))\<rparr>"

definition env_flaky :: environment where
  "env_flaky =
     \<lparr>OPENAI_API_KEY = Some ''sk-test'',
      service = (\<lambda>n body.
        if n < 2
        then (300, Failed \<lparr>error_message = ''Request failed with status code 429'',
                           response_message = Some ''Rate limit exceeded''\<rparr>)
        else (900, Responded ''https://img/1'' (Some ''a red bag, studio light'')))\<rparr>"

section \<open>Properties of the effects\<close>

lemma enforceRateLimit_fields [simp]:
  "sent (enforceRateLimit w) = sent w"
  "imageCache (enforceRateLimit w) = imageCache w"
  "lastApiCall (enforceRateLimit w) = clock (enforceRateLimit w)"
  "clock (enforceRateLimit w) = clock w + max 0 (lastApiCall w + MIN_DELAY - clock w)"
  "trace (enforceRateLimit w) =
     trace w @ (if clock w - lastApiCall w < MIN_DELAY
                then [RateLimitWait (MIN_DELAY - (clock w - lastApiCall w))] else [])"
  by (simp_all add: enforceRateLimit_def Let_def sleep_def record_event_def)

lemma record_event_fields [simp]:
  "sent (record_event e w) = sent w"
  "imageCache (record_event e w) = imageCache w"
  "lastApiCall (record_event e w) = lastApiCall w"
  "clock (record_event e w) = clock w"
  "trace (record_event e w) = trace w @ [e]"
  by (simp_all add: record_event_def)

lemma sleep_fields [simp]:
  "sent (sleep ms w) = sent w"
  "imageCache (sleep ms w) = imageCache w"
  "lastApiCall (sleep ms w) = lastApiCall w"
  "clock (sleep ms w) = clock w + ms"
  "trace (sleep ms w) = trace w"
  by (simp_all add: sleep_def)

lemma axios_post_fields [simp]:
  "fst (axios_post env body w) = snd (service env (sent w) body)"
  "sent (snd (axios_post env body w)) = Suc (sent w)"
  "imageCache (snd (axios_post env body w)) = imageCache w"
  "lastApiCall (snd (axios_post env body w)) = lastApiCall w"
  "clock (snd (axios_post env body w)) = clock w + int (fst (service env (sent w) body))"
  "trace (snd (axios_post env body w)) = trace w @ [Post (clock w) body]"
  by (simp_all add: axios_post_def)

lemma counter_le_floor [simp]: "counter_le k m = (k \<le> floor_of m)"
  by (cases m) simp_all

lemma counter_eq_Whole [simp]: "counter_eq k m = (m = Whole k)"
  by (cases m) auto


text \<open>One iteration of the loop, in its three outcomes, and the end of the loop.\<close>

lemma attemptLoop_success:
  assumes "attempt \<le> floor_of (maxRetries_of options)"
    and "snd (service env (sent w) (requestBody_of prompt options)) = Responded url revised"
  shows "attemptLoop env prompt options attempt lastError w =
           (Inr \<lparr>imageUrl = url, revisedPrompt = revised, fromCache = False, attempts = attempt\<rparr>,
            if useCache_of options
            then (record_event (CacheSet (createCacheKey prompt options))
                    (afterPost env prompt options attempt w))
                   \<lparr>imageCache := cache_set (imageCache w)
                      (clock (afterPost env prompt options attempt w))
                      (createCacheKey prompt options)
                      \<lparr>imageUrl = url, revisedPrompt = revised, fromCache = False,
                        attempts = attempt\<rparr>\<rparr>
            else afterPost env prompt options attempt w)"
  using assms
  by (subst attemptLoop.simps) (simp add: afterPost_def axios_post_def Let_def)

lemma attemptLoop_last_failure:
  assumes "maxRetries_of options = Whole attempt"
    and "snd (service env (sent w) (requestBody_of prompt options)) = Failed e"
  shows "attemptLoop env prompt options attempt lastError w =
           (Inl (allAttemptsFailed (maxRetries_of options) (Some e)),
            afterPost env prompt options attempt w)"
  using assms
  by (subst attemptLoop.simps) (simp add: afterPost_def axios_post_def Let_def)

lemma attemptLoop_retry:
  assumes "attempt \<le> floor_of (maxRetries_of options)"
    and "maxRetries_of options \<noteq> Whole attempt"
    and "snd (service env (sent w) (requestBody_of prompt options)) = Failed e"
  shows "attemptLoop env prompt options attempt lastError w =
           attemptLoop env prompt options (attempt + 1) (Some e)
             (sleep (2 ^ nat attempt * 1000)
                (record_event (BackoffWait (2 ^ nat attempt * 1000))
                   (afterPost env prompt options attempt w)))"
  using assms
  by (subst attemptLoop.simps) (simp add: afterPost_def axios_post_def Let_def)

lemma attemptLoop_no_iteration:
  "floor_of (maxRetries_of options) < attempt \<Longrightarrow>
   attemptLoop env prompt options attempt lastError w =
     (Inl (allAttemptsFailed (maxRetries_of options) lastError), w)"
  by (subst attemptLoop.simps) simp

lemma afterPost_fields [simp]:
  "sent (afterPost env prompt options attempt w) = Suc (sent w)"
  "imageCache (afterPost env prompt options attempt w) = imageCache w"
  "lastApiCall (afterPost env prompt options attempt w) =
     clock w + max 0 (lastApiCall w + MIN_DELAY - clock w)"
  "clock (afterPost env prompt options attempt w) =
     clock w + max 0 (lastApiCall w + MIN_DELAY - clock w)
       + int (fst (service env (sent w) (requestBody_of prompt options)))"
  "trace (afterPost env prompt options attempt w) =
     trace w @ [AttemptStart attempt]
       @ (if clock w - lastApiCall w < MIN_DELAY
          then [RateLimitWait (MIN_DELAY - (clock w - lastApiCall w))] else [])
       @ [Post (clock w + max 0 (lastApiCall w + MIN_DELAY - clock w))
            (requestBody_of prompt options)]"
  by (simp_all add: afterPost_def)

text \<open>Induction over the iterations of the loop, by the outcome of each.\<close>

lemma attemptLoop_cases_induct [case_names stop success last_failure retry]:
  assumes stop: "\<And>attempt lastError w.
        floor_of (maxRetries_of options) < attempt \<Longrightarrow> P attempt lastError w"
    and success: "\<And>attempt lastError w url revised.
        attempt \<le> floor_of (maxRetries_of options) \<Longrightarrow>
        snd (service env (sent w) (requestBody_of prompt options)) = Responded url revised \<Longrightarrow>
        P attempt lastError w"
    and last_failure: "\<And>attempt lastError w e.
        maxRetries_of options = Whole attempt \<Longrightarrow>
        snd (service env (sent w) (requestBody_of prompt options)) = Failed e \<Longrightarrow>
        P attempt lastError w"
    and retry: "\<And>attempt lastError w e.
        attempt \<le> floor_of (maxRetries_of options) \<Longrightarrow>
        maxRetries_of options \<noteq> Whole attempt \<Longrightarrow>
        snd (service env (sent w) (requestBody_of prompt options)) = Failed e \<Longrightarrow>
        P (attempt + 1) (Some e)
          (sleep (2 ^ nat attempt * 1000)
             (record_event (BackoffWait (2 ^ nat attempt * 1000))
                (afterPost env prompt options attempt w))) \<Longrightarrow>
        P attempt lastError w"
  shows "P attempt lastError w"
proof (induction "nat (floor_of (maxRetries_of options) + 1 - attempt)"
    arbitrary: attempt lastError w)
  case 0
  then show ?case by (intro stop) simp
next
  case (Suc n attempt lastError w)
  then have le: "attempt \<le> floor_of (maxRetries_of options)" by simp
  show ?case
  proof (cases "snd (service env (sent w) (requestBody_of prompt options))")
    case (Responded url revised)
    show ?thesis using le Responded by (rule success)
  next
    case (Failed e)
    show ?thesis
    proof (cases "maxRetries_of options = Whole attempt")
      case True
      then show ?thesis using Failed by (rule last_failure)
    next
      case False
      have "n = nat (floor_of (maxRetries_of options) + 1 - (attempt + 1))"
        using Suc.hyps(2) by simp
      then have "P (attempt + 1) (Some e)
          (sleep (2 ^ nat attempt * 1000)
             (record_event (BackoffWait (2 ^ nat attempt * 1000))
                (afterPost env prompt options attempt w)))"
        by (rule Suc.hyps(1))
      with le False Failed show ?thesis by (rule retry)
    qed
  qed
qed

lemma attemptLoop_sent:
  "sent w \<le> sent (snd (attemptLoop env prompt options attempt lastError w)) \<and>
   int (sent (snd (attemptLoop env prompt options attempt lastError w)))
     \<le> int (sent w) + max 0 (floor_of (maxRetries_of options) + 1 - attempt)"
proof (induction attempt lastError w
    rule: attemptLoop_cases_induct[where options = options and env = env and prompt = prompt])
  case (stop attempt lastError w)
  then show ?case by (simp add: attemptLoop_no_iteration)
next
  case (success attempt lastError w url revised)
  then show ?case by (simp add: attemptLoop_success)
next
  case (last_failure attempt lastError w e)
  then show ?case by (simp add: attemptLoop_last_failure)
next
  case (retry attempt lastError w e)
  then show ?case by (simp add: attemptLoop_retry)
qed

lemma attemptLoop_result:
  "case fst (attemptLoop env prompt options attempt lastError w) of
     Inl e \<Rightarrow>
       status e = 500 \<and>
       imageCache (snd (attemptLoop env prompt options attempt lastError w)) = imageCache w
   | Inr r \<Rightarrow>
       \<not> fromCache r \<and> attempt \<le> attempts r \<and> attempts r \<le> floor_of (maxRetries_of options) \<and>
       int (sent (snd (attemptLoop env prompt options attempt lastError w)))
         = int (sent w) + (attempts r - attempt) + 1 \<and>
       imageCache (snd (attemptLoop env prompt options attempt lastError w))
         = (if useCache_of options
            then cache_set (imageCache w)
                   (clock (snd (attemptLoop env prompt options attempt lastError w)))
                   (createCacheKey prompt options) r
            else imageCache w)"
proof (induction attempt lastError w
    rule: attemptLoop_cases_induct[where options = options and env = env and prompt = prompt])
  case (stop attempt lastError w)
  then show ?case by (simp add: attemptLoop_no_iteration allAttemptsFailed_def)
next
  case (success attempt lastError w url revised)
  then show ?case by (simp add: attemptLoop_success)
next
  case (last_failure attempt lastError w e)
  then show ?case by (simp add: attemptLoop_last_failure allAttemptsFailed_def)
next
  case (retry attempt lastError w e)
  then show ?case by (auto simp add: attemptLoop_retry split: sum.splits)
qed

lemma retry_event_simps [simp]:
  "retry_event (AttemptStart k)"
  "retry_event (BackoffWait ms)"
  "\<not> retry_event (RateLimitWait ms)"
  "\<not> retry_event (Post t body)"
  "\<not> retry_event (CacheGet key)"
  "\<not> retry_event (CacheSet key)"
  by (simp_all add: retry_event_def)

lemma new_events_append [simp]: "trace w' = trace w @ evs \<Longrightarrow> new_events w w' = evs"
  by (simp add: new_events_def)

lemma attemptLoop_schedule_aux:
  "\<exists>evs. trace (snd (attemptLoop env prompt options attempt lastError w)) = trace w @ evs \<and>
     (if attempt \<le> floor_of (maxRetries_of options)
      then sent w < sent (snd (attemptLoop env prompt options attempt lastError w)) \<and>
           filter retry_event evs =
             concat (map (\<lambda>k. [AttemptStart k, BackoffWait (2 ^ nat k * 1000)])
               [attempt .. attempt + int (sent (snd (attemptLoop env prompt options attempt lastError w)))
                           - int (sent w) - 2])
             @ [AttemptStart (attempt + int (sent (snd (attemptLoop env prompt options attempt lastError w)))
                           - int (sent w) - 1)]
             @ (case fst (attemptLoop env prompt options attempt lastError w) of
                  Inl e \<Rightarrow>
                    if is_whole (maxRetries_of options) then []
                    else [BackoffWait (2 ^ nat (floor_of (maxRetries_of options)) * 1000)]
                | Inr r \<Rightarrow> [])
      else evs = [])"
proof (induction attempt lastError w
    rule: attemptLoop_cases_induct[where options = options and env = env and prompt = prompt])
  case (stop attempt lastError w)
  then show ?case by (simp add: attemptLoop_no_iteration)
next
  case (success attempt lastError w url revised)
  then show ?case by (simp add: attemptLoop_success record_event_def)
next
  case (last_failure attempt lastError w e)
  then show ?case by (simp add: attemptLoop_last_failure)
next
  case (retry attempt lastError w e)
  let ?w2 = "sleep (2 ^ nat attempt * 1000)
               (record_event (BackoffWait (2 ^ nat attempt * 1000))
                  (afterPost env prompt options attempt w))"
  let ?w' = "snd (attemptLoop env prompt options (attempt + 1) (Some e) ?w2)"
  let ?tail = "case fst (attemptLoop env prompt options (attempt + 1) (Some e) ?w2) of
                  Inl e \<Rightarrow>
                    if is_whole (maxRetries_of options) then []
                    else [BackoffWait (2 ^ nat (floor_of (maxRetries_of options)) * 1000)]
                | Inr r \<Rightarrow> []"
  let ?pre = "[AttemptStart attempt]
       @ (if clock w - lastApiCall w < MIN_DELAY
          then [RateLimitWait (MIN_DELAY - (clock w - lastApiCall w))] else [])
       @ [Post (clock w + max 0 (lastApiCall w + MIN_DELAY - clock w))
            (requestBody_of prompt options)] @ [BackoffWait (2 ^ nat attempt * 1000)]"
  have same: "attemptLoop env prompt options attempt lastError w
                = attemptLoop env prompt options (attempt + 1) (Some e) ?w2"
    using retry.hyps by (rule attemptLoop_retry)
  have s2: "sent ?w2 = Suc (sent w)" by simp
  have t2: "trace ?w2 = trace w @ ?pre" by simp
  show ?case
  proof (cases "attempt + 1 \<le> floor_of (maxRetries_of options)")
    case True
    from retry.IH True obtain evs where
      tr: "trace ?w' = trace ?w2 @ evs" and
      more: "sent ?w2 < sent ?w'" and
      sched: "filter retry_event evs =
               concat (map (\<lambda>k. [AttemptStart k, BackoffWait (2 ^ nat k * 1000)])
                 [attempt + 1 .. attempt + 1 + int (sent ?w') - int (sent ?w2) - 2])
               @ [AttemptStart (attempt + 1 + int (sent ?w') - int (sent ?w2) - 1)] @ ?tail"
      by auto
    have range: "[attempt .. attempt + int (sent ?w') - int (sent w) - 2]
                   = attempt # [attempt + 1 .. attempt + 1 + int (sent ?w') - int (sent ?w2) - 2]"
      using more s2 by (subst upto_rec1) (simp_all add: algebra_simps)
    have idx: "attempt + 1 + int (sent ?w') - int (sent ?w2) - 1
                 = attempt + int (sent ?w') - int (sent w) - 1"
      using s2 by simp
    show ?thesis
      unfolding same
      using retry.hyps(1) more s2 tr sched range idx t2
      by (intro exI[where x = "?pre @ evs"]) simp
  next
    case False
    with retry.hyps(1) have last: "floor_of (maxRetries_of options) = attempt" by simp
    with retry.hyps(2) have fraction: "\<not> is_whole (maxRetries_of options)"
      by (cases "maxRetries_of options") simp_all
    have stop: "attemptLoop env prompt options (attempt + 1) (Some e) ?w2
                  = (Inl (allAttemptsFailed (maxRetries_of options) (Some e)), ?w2)"
      using last by (simp add: attemptLoop_no_iteration)
    show ?thesis
      unfolding same stop
      using retry.hyps(1) fraction last t2
      by (intro exI[where x = "?pre"]) simp
  qed
qed

subsection \<open>The paths of generateProductImage\<close>

lemma generateProductImage_hit:
  assumes "prompt \<noteq> []" and "truthy (OPENAI_API_KEY env)" and "useCache_of options"
    and "cache_get (imageCache w) (clock w) (createCacheKey prompt options) = Some cached"
  shows "generateProductImage env prompt options w =
           (Inr (cached\<lparr>fromCache := True, attempts := 0\<rparr>),
            record_event (CacheGet (createCacheKey prompt options)) w)"
  using assms by (simp add: generateProductImage_def)

lemma generateProductImage_miss:
  assumes "prompt \<noteq> []" and "truthy (OPENAI_API_KEY env)" and "useCache_of options"
    and "cache_get (imageCache w) (clock w) (createCacheKey prompt options) = None"
  shows "generateProductImage env prompt options w =
           attemptLoop env prompt options 1 None
             (record_event (CacheGet (createCacheKey prompt options)) w)"
  using assms by (simp add: generateProductImage_def)

lemma generateProductImage_uncached:
  assumes "prompt \<noteq> []" and "truthy (OPENAI_API_KEY env)" and "\<not> useCache_of options"
  shows "generateProductImage env prompt options w = attemptLoop env prompt options 1 None w"
  using assms by (simp add: generateProductImage_def)

text \<open>
  C6. A call with an empty prompt throws at once the error with the message
  \<^verbatim>\<open>Prompt is required\<close> and the status 400, and the state after the call is the state
  before it: no request was sent, the cache was neither read nor written (the store
  and the trace are unchanged), and \<open>lastApiCall\<close> kept its value.
\<close>

theorem empty_prompt_rejected:
  "generateProductImage env [] options w =
     (Inl \<lparr>message = ''Prompt is required'', status = 400\<rparr>, w)"
  by (simp add: generateProductImage_def)



subsection \<open>When every request fails\<close>


subsection \<open>Evaluating a call on given inputs\<close>

lemmas run_defs =
  generateProductImage_def attemptLoop.simps truthy_def useCache_of_def maxRetries_of_def
  model_of_def size_of_def quality_of_def style_of_def requestBody_of_def
  record_event_def cache_get_def cache_set_def axios_post_def enforceRateLimit_def
  MIN_DELAY_def stdTTL_def sleep_def elapse_def allAttemptsFailed_def failure_text_def
  initial_world_def env_down_def env_up_def env_flaky_def Let_def

lemma default_options_fields [simp]:
  "opt_model default_options = None" "opt_size default_options = None"
  "opt_quality default_options = None" "opt_style default_options = None"
  "maxRetries default_options = None" "useCache default_options = None"
  by (simp_all add: default_options_def)

lemma decimal_values:
  "decimal 3 = ''3''" "decimal (- 1) = ''-1''" "decimal (- 2) = ''-2''"
  "decimal 0 = ''0''" "decimal 2 = ''2''"
  by code_simp+

lemma createCacheKey_red_bag:
  "createCacheKey ''red bag'' default_options
     = ''image_dall-e-3_1024x1024_standard_vivid_red_bag''"
  "createCacheKey ''Red Bag'' default_options
     = ''image_dall-e-3_1024x1024_standard_vivid_red_bag''"
  by code_simp+




subsection \<open>The backoff schedule\<close>

lemma backoff_delays_append [simp]:
  "backoff_delays (xs @ ys) = backoff_delays xs @ backoff_delays ys"
  by (induction xs rule: backoff_delays.induct) simp_all

lemma backoff_delays_filter [simp]:
  "backoff_delays (filter retry_event evs) = backoff_delays evs"
  by (induction evs rule: backoff_delays.induct) simp_all

lemma backoff_delays_schedule:
  "backoff_delays (concat (map (\<lambda>k. [AttemptStart k, BackoffWait (f k)]) ks)) = map f ks"
  by (induction ks) simp_all

lemma sorted_backoff: "sorted (map (\<lambda>k. (2::int) ^ nat k * 1000) [a..b])"
proof -
  have "sorted_wrt (\<lambda>x y. (2::int) ^ nat x * 1000 \<le> 2 ^ nat y * 1000) [a..b]"
    by (rule sorted_wrt_mono_rel[where P = "(\<le>)"])
       (simp_all add: power_increasing nat_mono)
  then show ?thesis by (simp add: sorted_map)
qed

lemma generateProductImage_schedule_aux:
  "\<exists>evs. trace (snd (generateProductImage env prompt options w)) = trace w @ evs \<and>
     filter retry_event evs =
       (if sent (snd (generateProductImage env prompt options w)) = sent w then []
        else concat (map (\<lambda>k. [AttemptStart k, BackoffWait (2 ^ nat k * 1000)])
               [1 .. int (sent (snd (generateProductImage env prompt options w)))
                       - int (sent w) - 1])
             @ [AttemptStart (int (sent (snd (generateProductImage env prompt options w)))
                       - int (sent w))]
             @ (case fst (generateProductImage env prompt options w) of
                  Inl e \<Rightarrow>
                    if is_whole (maxRetries_of options) then []
                    else [BackoffWait (2 ^ nat (floor_of (maxRetries_of options)) * 1000)]
                | Inr r \<Rightarrow> []))"
proof -
  have loop: "\<exists>evs. trace (snd (attemptLoop env prompt options 1 None v)) = trace v @ evs \<and>
     filter retry_event evs =
       (if sent (snd (attemptLoop env prompt options 1 None v)) = sent v then []
        else concat (map (\<lambda>k. [AttemptStart k, BackoffWait (2 ^ nat k * 1000)])
               [1 .. int (sent (snd (attemptLoop env prompt options 1 None v))) - int (sent v) - 1])
             @ [AttemptStart (int (sent (snd (attemptLoop env prompt options 1 None v)))
                       - int (sent v))]
             @ (case fst (attemptLoop env prompt options 1 None v) of
                  Inl e \<Rightarrow>
                    if is_whole (maxRetries_of options) then []
                    else [BackoffWait (2 ^ nat (floor_of (maxRetries_of options)) * 1000)]
                | Inr r \<Rightarrow> []))" for v
  proof (cases "1 \<le> floor_of (maxRetries_of options)")
    case True
    with attemptLoop_schedule_aux[of env prompt options 1 None v] show ?thesis
      by (auto simp add: algebra_simps)
  next
    case False
    then show ?thesis by (simp add: attemptLoop_no_iteration)
  qed
  consider (empty) "prompt = []"
    | (unconfigured) "prompt \<noteq> []" "\<not> truthy (OPENAI_API_KEY env)"
    | (hit) cached where "prompt \<noteq> []" "truthy (OPENAI_API_KEY env)" "useCache_of options"
        "cache_get (imageCache w) (clock w) (createCacheKey prompt options) = Some cached"
    | (miss) "prompt \<noteq> []" "truthy (OPENAI_API_KEY env)" "useCache_of options"
        "cache_get (imageCache w) (clock w) (createCacheKey prompt options) = None"
    | (uncached) "prompt \<noteq> []" "truthy (OPENAI_API_KEY env)" "\<not> useCache_of options"
    by (cases "cache_get (imageCache w) (clock w) (createCacheKey prompt options)") auto
  then show ?thesis
  proof cases
    case empty
    then show ?thesis by (simp add: generateProductImage_def)
  next
    case unconfigured
    then show ?thesis by (simp add: generateProductImage_def)
  next
    case hit
    then show ?thesis by (simp add: generateProductImage_hit)
  next
    case miss
    let ?w1 = "record_event (CacheGet (createCacheKey prompt options)) w"
    from loop[of ?w1] obtain evs where
      "trace (snd (attemptLoop env prompt options 1 None ?w1)) = trace ?w1 @ evs"
      and f: "filter retry_event evs =
       (if sent (snd (attemptLoop env prompt options 1 None ?w1)) = sent ?w1 then []
        else concat (map (\<lambda>k. [AttemptStart k, BackoffWait (2 ^ nat k * 1000)])
               [1 .. int (sent (snd (attemptLoop env prompt options 1 None ?w1))) - int (sent ?w1) - 1])
             @ [AttemptStart (int (sent (snd (attemptLoop env prompt options 1 None ?w1)))
                       - int (sent ?w1))]
             @ (case fst (attemptLoop env prompt options 1 None ?w1) of
                  Inl e \<Rightarrow>
                    if is_whole (maxRetries_of options) then []
                    else [BackoffWait (2 ^ nat (floor_of (maxRetries_of options)) * 1000)]
                | Inr r \<Rightarrow> []))"
      by blast
    then have "trace (snd (attemptLoop env prompt options 1 None ?w1))
                 = trace w @ (CacheGet (createCacheKey prompt options) # evs)"
      by simp
    with f show ?thesis
      unfolding generateProductImage_miss[OF miss]
      by (intro exI[where x = "CacheGet (createCacheKey prompt options) # evs"]) simp
  next
    case uncached
    show ?thesis using loop[of w] unfolding generateProductImage_uncached[OF uncached] .
  qed
qed

lemma attemptLoop_stops_on_failure_only_at_maxRetries:
  assumes "attempt \<le> floor_of (maxRetries_of options)"
    and "failure_of (snd (service env
           (sent (snd (attemptLoop env prompt options attempt lastError w)) - 1)
           (requestBody_of prompt options))) \<noteq> None"
  shows "int (sent (snd (attemptLoop env prompt options attempt lastError w))) - int (sent w)
           = floor_of (maxRetries_of options) - attempt + 1"
  using assms
proof (induction attempt lastError w
    rule: attemptLoop_cases_induct[where options = options and env = env and prompt = prompt])
  case (stop attempt lastError w)
  then show ?case by simp
next
  case (success attempt lastError w url revised)
  then show ?case by (auto simp add: attemptLoop_success split: if_splits)
next
  case (last_failure attempt lastError w e)
  then show ?case by (simp add: attemptLoop_last_failure)
next
  case (retry attempt lastError w e)
  show ?case
  proof (cases "attempt + 1 \<le> floor_of (maxRetries_of options)")
    case True
    with retry show ?thesis by (simp add: attemptLoop_retry)
  next
    case False
    with retry.hyps(1) have "floor_of (maxRetries_of options) = attempt" by simp
    then show ?thesis
      using retry.hyps by (simp add: attemptLoop_retry attemptLoop_no_iteration)
  qed
qed

lemma generateProductImage_stops_on_failure_only_at_maxRetries:
  assumes "sent w < sent (snd (generateProductImage env prompt options w))"
    and "failure_of (snd (service env
           (sent (snd (generateProductImage env prompt options w)) - 1)
           (requestBody_of prompt options))) \<noteq> None"
  shows "int (sent (snd (generateProductImage env prompt options w))) - int (sent w)
           = floor_of (maxRetries_of options)"
proof -
  let ?w1 = "record_event (CacheGet (createCacheKey prompt options)) w"
  have loop: "int (sent (snd (attemptLoop env prompt options 1 None v))) - int (sent v)
                = floor_of (maxRetries_of options)"
    if "sent v < sent (snd (attemptLoop env prompt options 1 None v))"
      and "failure_of (snd (service env (sent (snd (attemptLoop env prompt options 1 None v)) - 1)
             (requestBody_of prompt options))) \<noteq> None" for v
  proof (cases "1 \<le> floor_of (maxRetries_of options)")
    case True
    from attemptLoop_stops_on_failure_only_at_maxRetries[OF True that(2)] show ?thesis by simp
  next
    case False
    with that(1) show ?thesis by (simp add: attemptLoop_no_iteration)
  qed
  consider (empty) "prompt = []"
    | (unconfigured) "prompt \<noteq> []" "\<not> truthy (OPENAI_API_KEY env)"
    | (hit) cached where "prompt \<noteq> []" "truthy (OPENAI_API_KEY env)" "useCache_of options"
        "cache_get (imageCache w) (clock w) (createCacheKey prompt options) = Some cached"
    | (miss) "prompt \<noteq> []" "truthy (OPENAI_API_KEY env)" "useCache_of options"
        "cache_get (imageCache w) (clock w) (createCacheKey prompt options) = None"
    | (uncached) "prompt \<noteq> []" "truthy (OPENAI_API_KEY env)" "\<not> useCache_of options"
    by (cases "cache_get (imageCache w) (clock w) (createCacheKey prompt options)") auto
  then show ?thesis
  proof cases
    case empty
    with assms(1) show ?thesis by (simp add: generateProductImage_def)
  next
    case unconfigured
    with assms(1) show ?thesis by (simp add: generateProductImage_def)
  next
    case hit
    with assms(1) show ?thesis by (simp add: generateProductImage_hit)
  next
    case miss
    from assms loop[of ?w1] show ?thesis
      unfolding generateProductImage_miss[OF miss] by simp
  next
    case uncached
    from assms loop[of w] show ?thesis
      unfolding generateProductImage_uncached[OF uncached] by simp
  qed
qed

text \<open>
  The retry schedule of a call. Let \<open>m\<close> be the number of requests the call sends. The
  attempts and the backoff sleeps alternate in its trace: attempt 1, a sleep of
  \<open>2^1 * 1000\<close> ms, attempt 2, a sleep of \<open>2^2 * 1000\<close> ms, and so on up to attempt \<open>m\<close>.
  The delays never decrease, \<open>m\<close> is at most \<open>maxRetries\<close> (when a request is sent at
  all), and the call ends on a failed request only when that request was attempt
  \<open>floor maxRetries\<close>. After attempt \<open>m\<close> the call does not sleep again, except when it
  throws and \<open>maxRetries\<close> is not an integer: then \<^verbatim>\<open>attempt === maxRetries\<close> is false
  for the last attempt too, and one more backoff sleep follows it.
\<close>

lemma retry_schedule:
  "filter retry_event (new_events w (snd (generateProductImage env prompt options w))) =
     (if sent (snd (generateProductImage env prompt options w)) = sent w then []
      else concat (map (\<lambda>k. [AttemptStart k, BackoffWait (2 ^ nat k * 1000)])
             [1 .. int (sent (snd (generateProductImage env prompt options w))) - int (sent w) - 1])
           @ [AttemptStart (int (sent (snd (generateProductImage env prompt options w)))
                              - int (sent w))]
           @ (case fst (generateProductImage env prompt options w) of
                Inl e \<Rightarrow>
                  if is_whole (maxRetries_of options) then []
                  else [BackoffWait (2 ^ nat (floor_of (maxRetries_of options)) * 1000)]
              | Inr r \<Rightarrow> []))
   \<and> sorted (backoff_delays (new_events w (snd (generateProductImage env prompt options w))))
   \<and> int (sent (snd (generateProductImage env prompt options w))) - int (sent w)
       \<le> max 0 (floor_of (maxRetries_of options))
   \<and> (sent w < sent (snd (generateProductImage env prompt options w)) \<and>
       failure_of (snd (service env (sent (snd (generateProductImage env prompt options w)) - 1)
         (requestBody_of prompt options))) \<noteq> None \<longrightarrow>
       int (sent (snd (generateProductImage env prompt options w))) - int (sent w)
         = floor_of (maxRetries_of options))"
proof -
  let ?w' = "snd (generateProductImage env prompt options w)"
  let ?m = "int (sent ?w') - int (sent w)"
  let ?tail = "case fst (generateProductImage env prompt options w) of
                Inl e \<Rightarrow>
                  if is_whole (maxRetries_of options) then []
                  else [BackoffWait (2 ^ nat (floor_of (maxRetries_of options)) * 1000)]
              | Inr r \<Rightarrow> []"
  have last: "sent w < sent ?w' \<and>
       failure_of (snd (service env (sent ?w' - 1) (requestBody_of prompt options))) \<noteq> None \<longrightarrow>
       ?m = floor_of (maxRetries_of options)"
    using generateProductImage_stops_on_failure_only_at_maxRetries[of w env prompt options]
    by blast
  from generateProductImage_schedule_aux[of env prompt options w] obtain evs where
    tr: "trace ?w' = trace w @ evs" and
    f: "filter retry_event evs =
       (if sent ?w' = sent w then []
        else concat (map (\<lambda>k. [AttemptStart k, BackoffWait (2 ^ nat k * 1000)]) [1 .. ?m - 1])
             @ [AttemptStart ?m] @ ?tail)"
    by blast
  have ne: "new_events w ?w' = evs" using tr by simp
  have bound: "?m \<le> max 0 (floor_of (maxRetries_of options))"
  proof (cases "prompt \<noteq> [] \<and> truthy (OPENAI_API_KEY env)")
    case False
    then show ?thesis by (auto simp add: generateProductImage_def)
  next
    case True
    show ?thesis
      using attemptLoop_sent[of w env prompt options 1 None]
        attemptLoop_sent[of "record_event (CacheGet (createCacheKey prompt options)) w"
          env prompt options 1 None]
      by (auto simp add: generateProductImage_def Let_def split: option.splits)
  qed
  have lower: "sent w \<le> sent ?w'"
  proof (cases "prompt \<noteq> [] \<and> truthy (OPENAI_API_KEY env)")
    case False
    then show ?thesis by (auto simp add: generateProductImage_def)
  next
    case True
    show ?thesis
      using attemptLoop_sent[of w env prompt options 1 None]
        attemptLoop_sent[of "record_event (CacheGet (createCacheKey prompt options)) w"
          env prompt options 1 None]
      by (auto simp add: generateProductImage_def Let_def split: option.splits)
  qed
  have d: "backoff_delays evs = backoff_delays (filter retry_event evs)" by simp
  have "sorted (backoff_delays evs)"
  proof (cases "sent ?w' = sent w")
    case True
    then show ?thesis unfolding d f by simp
  next
    case False
    then have m: "sent w < sent ?w'" using lower by simp
    show ?thesis
    proof (cases "?tail = []")
      case True
      with False have "backoff_delays evs = map (\<lambda>k. 2 ^ nat k * 1000) [1 .. ?m - 1]"
        unfolding d f by (simp add: backoff_delays_schedule del: backoff_delays_filter)
      then show ?thesis by (simp add: sorted_backoff)
    next
      case tail: False
      then have t: "?tail = [BackoffWait (2 ^ nat (floor_of (maxRetries_of options)) * 1000)]"
        by (auto split: sum.splits if_splits)
      have "backoff_delays evs
              = map (\<lambda>k. 2 ^ nat k * 1000) [1 .. ?m - 1]
                @ [2 ^ nat (floor_of (maxRetries_of options)) * 1000]"
        using False unfolding d f t
        by (simp add: backoff_delays_schedule del: backoff_delays_filter)
      moreover have "\<forall>x \<in> set (map (\<lambda>k. (2::int) ^ nat k * 1000) [1 .. ?m - 1]).
                       x \<le> 2 ^ nat (floor_of (maxRetries_of options)) * 1000"
        using bound by (auto intro!: power_increasing nat_mono)
      ultimately show ?thesis
        by (simp add: sorted_append sorted_backoff)
    qed
  qed
  with f bound last show ?thesis
    unfolding ne by (intro conjI)
qed

text \<open>
  C2. The claim holds for every call whose \<open>maxRetries\<close> is an integer (by the schedule
  above), and the comment of line 317 says what the claim says: no sleep after the last
  attempt. The code breaks it when \<open>maxRetries\<close> is not an integer. With
  \<open>maxRetries = 2.5\<close> and a service that is down, attempt 2 is the last one, since
  3 is above 2.5, and the call still sleeps 4000 ms after it before it throws.
\<close>

theorem backoff_follows_last_attempt_when_maxRetries_not_whole:
  "filter retry_event (new_events (initial_world 5000)
      (snd (generateProductImage env_down ''red bag''
         (default_options\<lparr>maxRetries := Some (Between 2 ''2.5'')\<rparr>) (initial_world 5000))))
     = [AttemptStart 1, BackoffWait 2000, AttemptStart 2, BackoffWait 4000]
   \<and> sent (snd (generateProductImage env_down ''red bag''
         (default_options\<lparr>maxRetries := Some (Between 2 ''2.5'')\<rparr>) (initial_world 5000))) = 2
   \<and> fst (generateProductImage env_down ''red bag''
         (default_options\<lparr>maxRetries := Some (Between 2 ''2.5'')\<rparr>) (initial_world 5000))
       = Inl \<lparr>message = ''Failed to generate image after 2.5 attempts: connect ETIMEDOUT'',
              status = 500\<rparr>"
  by (simp add: run_defs new_events_def createCacheKey_def substring_0_50_def
      replace_outside_def toLowerCase_def)

subsection \<open>The rate limiter\<close>

lemma post_times_append [simp]: "post_times (xs @ ys) = post_times xs @ post_times ys"
  by (induction xs rule: post_times.induct) simp_all

lemma rate_limited_same_posts:
  assumes "post_times (trace w') = post_times (trace w)" and "lastApiCall w' = lastApiCall w"
  shows "rate_limited w' = rate_limited w"
  using assms by (simp add: rate_limited_def)

lemma rate_limited_afterPost:
  assumes "rate_limited w"
  shows "rate_limited (afterPost env prompt options attempt w)"
proof -
  let ?t = "clock w + max 0 (lastApiCall w + MIN_DELAY - clock w)"
  have later: "lastApiCall w + MIN_DELAY \<le> ?t" by simp
  have posts: "post_times (trace (afterPost env prompt options attempt w))
                 = post_times (trace w) @ [?t]"
    by simp
  have old: "list_all (\<lambda>t. t \<le> lastApiCall w) (post_times (trace w))"
    and sp: "spaced (post_times (trace w))"
    using assms by (simp_all add: rate_limited_def)
  have "\<forall>x \<in> set (post_times (trace w)). x + MIN_DELAY \<le> ?t"
    using old later by (auto simp add: list_all_iff)
  moreover have "0 \<le> MIN_DELAY" by (simp add: MIN_DELAY_def)
  ultimately show ?thesis
    using sp unfolding rate_limited_def posts spaced_def
    by (auto simp add: sorted_wrt_append list_all_iff)
qed

lemma attemptLoop_rate_limited:
  "rate_limited w \<Longrightarrow> rate_limited (snd (attemptLoop env prompt options attempt lastError w))"
proof (induction attempt lastError w
    rule: attemptLoop_cases_induct[where options = options and env = env and prompt = prompt])
  case (stop attempt lastError w)
  then show ?case by (simp add: attemptLoop_no_iteration)
next
  case (success attempt lastError w url revised)
  have "rate_limited (afterPost env prompt options attempt w)"
    using success.prems by (rule rate_limited_afterPost)
  moreover have "rate_limited
      ((record_event (CacheSet (createCacheKey prompt options))
          (afterPost env prompt options attempt w))\<lparr>imageCache := c\<rparr>)
      = rate_limited (afterPost env prompt options attempt w)" for c
    by (rule rate_limited_same_posts) simp_all
  ultimately show ?case
    using success.hyps by (simp add: attemptLoop_success)
next
  case (last_failure attempt lastError w e)
  then show ?case by (simp add: attemptLoop_last_failure rate_limited_afterPost)
next
  case (retry attempt lastError w e)
  let ?w2 = "sleep (2 ^ nat attempt * 1000)
               (record_event (BackoffWait (2 ^ nat attempt * 1000))
                  (afterPost env prompt options attempt w))"
  have "rate_limited ?w2 = rate_limited (afterPost env prompt options attempt w)"
    by (rule rate_limited_same_posts) simp_all
  then have "rate_limited ?w2" using retry.prems by (simp add: rate_limited_afterPost)
  then show ?case using retry.hyps retry.IH by (simp add: attemptLoop_retry)
qed

lemma generateProductImage_rate_limited:
  assumes "rate_limited w"
  shows "rate_limited (snd (generateProductImage env prompt options w))"
proof -
  let ?w1 = "record_event (CacheGet (createCacheKey prompt options)) w"
  have "rate_limited ?w1 = rate_limited w"
    by (rule rate_limited_same_posts) simp_all
  with assms have "rate_limited ?w1" by simp
  then show ?thesis
    using assms
    by (simp add: generateProductImage_def Let_def attemptLoop_rate_limited
        del: record_event_fields split: option.splits)
qed

lemma session_rate_limited:
  "rate_limited w \<Longrightarrow> rate_limited (session env calls w)"
proof (induction calls arbitrary: w)
  case Nil
  then show ?case by simp
next
  case (Cons call calls)
  obtain idle prompt options where call: "call = (idle, prompt, options)"
    by (cases call) auto
  have "rate_limited (elapse idle w) = rate_limited w"
    by (rule rate_limited_same_posts) (simp_all add: elapse_def)
  with Cons.prems have "rate_limited (elapse idle w)" by simp
  then have "rate_limited (snd (generateProductImage env prompt options (elapse idle w)))"
    by (rule generateProductImage_rate_limited)
  then show ?case unfolding call by (simp add: Cons.IH)
qed

lemma rate_limited_initial: "rate_limited (initial_world t)"
  by (simp add: rate_limited_def initial_world_def spaced_def)

text \<open>
  C8. \<open>enforceRateLimit\<close> sleeps exactly \<open>max 0 (lastApiCall + MIN_DELAY - now)\<close>
  milliseconds, with \<open>MIN_DELAY = 1000\<close>, and then stores the time it reads in
  \<open>lastApiCall\<close>, which is therefore at least \<open>MIN_DELAY\<close> later than the value it
  replaces. The loop calls it before every request, so a call keeps the requests spaced,
  and in every sequential execution that starts when the module is loaded each request
  is sent at least \<open>MIN_DELAY\<close> after the one before it.
\<close>

theorem requests_are_spaced_by_MIN_DELAY:
  "clock (enforceRateLimit w) - clock w = max 0 (lastApiCall w + MIN_DELAY - clock w)
   \<and> MIN_DELAY = 1000
   \<and> lastApiCall (enforceRateLimit w) = clock (enforceRateLimit w)
   \<and> lastApiCall w + MIN_DELAY \<le> lastApiCall (enforceRateLimit w)
   \<and> post_times (trace (afterPost env prompt options attempt w))
       = post_times (trace w) @ [lastApiCall (enforceRateLimit w)]
   \<and> (rate_limited w \<longrightarrow> rate_limited (snd (generateProductImage env prompt options w)))
   \<and> spaced (post_times (trace (session env calls (initial_world t))))"
proof -
  have "rate_limited (session env calls (initial_world t))"
    using rate_limited_initial by (rule session_rate_limited)
  then have "spaced (post_times (trace (session env calls (initial_world t))))"
    by (simp add: rate_limited_def)
  then show ?thesis
    by (simp add: generateProductImage_rate_limited) (simp add: MIN_DELAY_def)
qed

theorem requests_are_spaced_by_MIN_DELAY_witness:
  "post_times (trace (session env_up
       [(0, ''red bag'', default_options), (0, ''blue cap'', default_options)]
       (initial_world 5000))) = [5000, 6000]
   \<and> spaced (post_times (trace (session env_up
       [(0, ''red bag'', default_options), (0, ''blue cap'', default_options)]
       (initial_world 5000))))
   \<and> rate_limited (snd (generateProductImage env_up ''red bag'' default_options
        (initial_world 5000)))"
proof -
  have k1: "createCacheKey ''blue cap'' default_options
              = ''image_dall-e-3_1024x1024_standard_vivid_blue_cap''"
    by code_simp
  have p: "post_times (trace (session env_up
       [(0, ''red bag'', default_options), (0, ''blue cap'', default_options)]
       (initial_world 5000))) = [5000, 6000]"
    by (simp add: run_defs createCacheKey_red_bag k1)
  have i: "rate_limited (initial_world 5000)"
    by (simp add: rate_limited_def initial_world_def spaced_def)
  show ?thesis
    using requests_are_spaced_by_MIN_DELAY[of "initial_world 5000" env_up "''red bag''"
        default_options 1 "[(0, ''red bag'', default_options), (0, ''blue cap'', default_options)]"
        5000] p i
    by simp
qed

subsection \<open>The cache\<close>

lemma cache_event_simps [simp]:
  "cache_event (CacheGet key)"
  "cache_event (CacheSet key)"
  "\<not> cache_event (AttemptStart k)"
  "\<not> cache_event (RateLimitWait ms)"
  "\<not> cache_event (Post t body)"
  "\<not> cache_event (BackoffWait ms)"
  by (simp_all add: cache_event_def)

lemma attemptLoop_cache_events:
  "\<exists>evs. trace (snd (attemptLoop env prompt options attempt lastError w)) = trace w @ evs \<and>
     filter cache_event evs =
       (case fst (attemptLoop env prompt options attempt lastError w) of
          Inl e \<Rightarrow> []
        | Inr r \<Rightarrow> if useCache_of options then [CacheSet (createCacheKey prompt options)] else [])"
proof (induction attempt lastError w
    rule: attemptLoop_cases_induct[where options = options and env = env and prompt = prompt])
  case (stop attempt lastError w)
  then show ?case by (simp add: attemptLoop_no_iteration)
next
  case (success attempt lastError w url revised)
  then show ?case by (simp add: attemptLoop_success record_event_def)
next
  case (last_failure attempt lastError w e)
  then show ?case by (simp add: attemptLoop_last_failure)
next
  case (retry attempt lastError w e)
  let ?w2 = "sleep (2 ^ nat attempt * 1000)
               (record_event (BackoffWait (2 ^ nat attempt * 1000))
                  (afterPost env prompt options attempt w))"
  from retry.IH obtain evs where
    tr: "trace (snd (attemptLoop env prompt options (attempt + 1) (Some e) ?w2)) = trace ?w2 @ evs"
    and ce: "filter cache_event evs =
       (case fst (attemptLoop env prompt options (attempt + 1) (Some e) ?w2) of
          Inl e \<Rightarrow> []
        | Inr r \<Rightarrow> if useCache_of options then [CacheSet (createCacheKey prompt options)] else [])"
    by blast
  have "\<exists>pre. trace ?w2 = trace w @ pre \<and> filter cache_event pre = []"
    by simp
  then obtain pre where pre: "trace ?w2 = trace w @ pre" "filter cache_event pre = []"
    by blast
  show ?case
    unfolding attemptLoop_retry[OF retry.hyps]
    using tr ce pre by (intro exI[where x = "pre @ evs"]) simp
qed

text \<open>What a call returns, and what it has done to the cache and the service.\<close>

lemma generateProductImage_returns:
  assumes "fst (generateProductImage env prompt options w) = Inr r"
  shows "prompt \<noteq> []" and "truthy (OPENAI_API_KEY env)"
  using assms by (auto simp add: generateProductImage_def split: if_splits)

lemma generateProductImage_thrown:
  assumes "fst (generateProductImage env prompt options w) = Inl e"
  shows "imageCache (snd (generateProductImage env prompt options w)) = imageCache w"
    and "CacheSet k \<notin> set (new_events w (snd (generateProductImage env prompt options w)))"
proof -
  let ?w1 = "record_event (CacheGet (createCacheKey prompt options)) w"
  have loop: "fst (attemptLoop env prompt options 1 None v) = Inl e \<Longrightarrow>
        imageCache (snd (attemptLoop env prompt options 1 None v)) = imageCache v \<and>
        (\<exists>evs. trace (snd (attemptLoop env prompt options 1 None v)) = trace v @ evs \<and>
               filter cache_event evs = [])" for v
    using attemptLoop_result[of env prompt options 1 None v]
      attemptLoop_cache_events[of env prompt options 1 None v]
    by simp
  have noset: "filter cache_event evs = [] \<Longrightarrow> CacheSet k \<notin> set evs" for evs
    by (auto simp add: filter_empty_conv)
  consider (empty) "prompt = []"
    | (unconfigured) "prompt \<noteq> []" "\<not> truthy (OPENAI_API_KEY env)"
    | (hit) cached where "prompt \<noteq> []" "truthy (OPENAI_API_KEY env)" "useCache_of options"
        "cache_get (imageCache w) (clock w) (createCacheKey prompt options) = Some cached"
    | (miss) "prompt \<noteq> []" "truthy (OPENAI_API_KEY env)" "useCache_of options"
        "cache_get (imageCache w) (clock w) (createCacheKey prompt options) = None"
    | (uncached) "prompt \<noteq> []" "truthy (OPENAI_API_KEY env)" "\<not> useCache_of options"
    by (cases "cache_get (imageCache w) (clock w) (createCacheKey prompt options)") auto
  then have "imageCache (snd (generateProductImage env prompt options w)) = imageCache w
    \<and> CacheSet k \<notin> set (new_events w (snd (generateProductImage env prompt options w)))"
  proof cases
    case empty
    then show ?thesis by (simp add: generateProductImage_def new_events_def)
  next
    case unconfigured
    then show ?thesis by (simp add: generateProductImage_def new_events_def)
  next
    case hit
    with assms show ?thesis by (simp add: generateProductImage_hit)
  next
    case miss
    from assms have "fst (attemptLoop env prompt options 1 None ?w1) = Inl e"
      by (simp add: generateProductImage_miss[OF miss])
    from loop[OF this] obtain evs where
      "imageCache (snd (attemptLoop env prompt options 1 None ?w1)) = imageCache w"
      "trace (snd (attemptLoop env prompt options 1 None ?w1))
         = trace w @ CacheGet (createCacheKey prompt options) # evs"
      "filter cache_event evs = []"
      by auto
    then show ?thesis
      using noset[of evs] by (simp add: generateProductImage_miss[OF miss])
  next
    case uncached
    from assms have "fst (attemptLoop env prompt options 1 None w) = Inl e"
      by (simp add: generateProductImage_uncached[OF uncached])
    from loop[OF this] show ?thesis
      using noset by (auto simp add: generateProductImage_uncached[OF uncached])
  qed
  then show "imageCache (snd (generateProductImage env prompt options w)) = imageCache w"
    and "CacheSet k \<notin> set (new_events w (snd (generateProductImage env prompt options w)))"
    by simp_all
qed

lemma generateProductImage_served_from_cache:
  assumes "fst (generateProductImage env prompt options w) = Inr r" and "fromCache r"
  shows "prompt \<noteq> []" and "truthy (OPENAI_API_KEY env)" and "useCache_of options"
    and "\<exists>cached. cache_get (imageCache w) (clock w) (createCacheKey prompt options) = Some cached
           \<and> r = cached\<lparr>fromCache := True, attempts := 0\<rparr>"
    and "snd (generateProductImage env prompt options w)
           = record_event (CacheGet (createCacheKey prompt options)) w"
proof -
  have loop: "fst (attemptLoop env prompt options 1 None v) \<noteq> Inr r" for v
    using attemptLoop_result[of env prompt options 1 None v] assms(2) by auto
  show p: "prompt \<noteq> []" and k: "truthy (OPENAI_API_KEY env)"
    using assms(1) by (rule generateProductImage_returns)+
  show u: "useCache_of options"
    using assms(1) loop[of w] by (cases "useCache_of options")
      (simp_all add: generateProductImage_uncached[OF p k])
  have hit: "\<exists>cached. cache_get (imageCache w) (clock w) (createCacheKey prompt options) = Some cached"
    using assms(1) p k u loop[of "record_event (CacheGet (createCacheKey prompt options)) w"]
    by (cases "cache_get (imageCache w) (clock w) (createCacheKey prompt options)")
       (auto simp add: generateProductImage_miss)
  then obtain cached where
    c: "cache_get (imageCache w) (clock w) (createCacheKey prompt options) = Some cached"
    by blast
  show "\<exists>cached. cache_get (imageCache w) (clock w) (createCacheKey prompt options) = Some cached
           \<and> r = cached\<lparr>fromCache := True, attempts := 0\<rparr>"
    using assms(1) c by (auto simp add: generateProductImage_hit[OF p k u c])
  show "snd (generateProductImage env prompt options w)
           = record_event (CacheGet (createCacheKey prompt options)) w"
    by (simp add: generateProductImage_hit[OF p k u c])
qed

lemma generateProductImage_generated:
  assumes "fst (generateProductImage env prompt options w) = Inr r" and "\<not> fromCache r"
  shows "prompt \<noteq> []" and "truthy (OPENAI_API_KEY env)"
    and "1 \<le> attempts r" and "attempts r \<le> floor_of (maxRetries_of options)"
    and "int (sent (snd (generateProductImage env prompt options w))) = int (sent w) + attempts r"
    and "imageCache (snd (generateProductImage env prompt options w))
           = (if useCache_of options
              then cache_set (imageCache w) (clock (snd (generateProductImage env prompt options w)))
                     (createCacheKey prompt options) r
              else imageCache w)"
    and "CacheSet k \<in> set (new_events w (snd (generateProductImage env prompt options w)))
           \<longleftrightarrow> useCache_of options \<and> k = createCacheKey prompt options"
    and "useCache_of options \<Longrightarrow>
           cache_get (imageCache w) (clock w) (createCacheKey prompt options) = None"
proof -
  let ?w1 = "record_event (CacheGet (createCacheKey prompt options)) w"
  let ?key = "createCacheKey prompt options"
  show p: "prompt \<noteq> []" and k: "truthy (OPENAI_API_KEY env)"
    using assms(1) by (rule generateProductImage_returns)+
  have miss: "cache_get (imageCache w) (clock w) ?key = None" if u: "useCache_of options"
  proof (cases "cache_get (imageCache w) (clock w) ?key")
    case None
    then show ?thesis .
  next
    case (Some cached)
    with assms show ?thesis by (auto simp add: generateProductImage_hit[OF p k u Some])
  qed
  then show "useCache_of options \<Longrightarrow> cache_get (imageCache w) (clock w) ?key = None" .
  define v where "v = (if useCache_of options then ?w1 else w)"
  have call: "generateProductImage env prompt options w = attemptLoop env prompt options 1 None v"
    using p k miss
    by (cases "useCache_of options")
       (simp_all add: v_def generateProductImage_miss generateProductImage_uncached)
  have v: "sent v = sent w" "imageCache v = imageCache w"
    "trace v = trace w @ (if useCache_of options then [CacheGet ?key] else [])"
    by (simp_all add: v_def)
  have r: "fst (attemptLoop env prompt options 1 None v) = Inr r" using assms(1) call by simp
  from attemptLoop_result[of env prompt options 1 None v] r v
  show "1 \<le> attempts r" and "attempts r \<le> floor_of (maxRetries_of options)"
    and "int (sent (snd (generateProductImage env prompt options w))) = int (sent w) + attempts r"
    and "imageCache (snd (generateProductImage env prompt options w))
           = (if useCache_of options
              then cache_set (imageCache w) (clock (snd (generateProductImage env prompt options w)))
                     ?key r
              else imageCache w)"
    unfolding call by simp_all
  from attemptLoop_cache_events[of env prompt options 1 None v] r obtain evs where
    "trace (snd (attemptLoop env prompt options 1 None v)) = trace v @ evs"
    and ce: "filter cache_event evs = (if useCache_of options then [CacheSet ?key] else [])"
    by auto
  then have ne: "new_events w (snd (generateProductImage env prompt options w))
            = (if useCache_of options then [CacheGet ?key] else []) @ evs"
    unfolding call using v(3) by simp
  have "CacheSet k \<in> set evs \<longleftrightarrow> CacheSet k \<in> set (filter cache_event evs)" by simp
  then show "CacheSet k \<in> set (new_events w (snd (generateProductImage env prompt options w)))
           \<longleftrightarrow> useCache_of options \<and> k = ?key"
    unfolding ne ce by auto
qed

lemma cache_set_fresh:
  "t \<le> now + stdTTL * 1000 \<Longrightarrow> cache_get (cache_set c now k v) t k = Some v"
  by (simp add: cache_get_def cache_set_def)

lemma attemptLoop_sends:
  "attempt \<le> floor_of (maxRetries_of options) \<Longrightarrow>
   sent w < sent (snd (attemptLoop env prompt options attempt lastError w))"
  using attemptLoop_schedule_aux[of env prompt options attempt lastError w] by auto

text \<open>
  C5. A call that throws leaves the cache store as it was. A call that returns a result
  changes the store only when the result comes from a request and caching is on: the
  store then holds the result under the key of the call, inserted at the time the call
  ends, so that it is served during the whole time to live (3600 seconds) from then.
  The call writes the store (line 304) in that case only, and under that key.
\<close>

theorem cache_written_only_on_success:
  "(case fst (generateProductImage env prompt options w) of
      Inl e \<Rightarrow> imageCache (snd (generateProductImage env prompt options w)) = imageCache w
    | Inr r \<Rightarrow>
        imageCache (snd (generateProductImage env prompt options w))
          = (if \<not> fromCache r \<and> useCache_of options
             then cache_set (imageCache w) (clock (snd (generateProductImage env prompt options w)))
                    (createCacheKey prompt options) r
             else imageCache w) \<and>
        (\<not> fromCache r \<and> useCache_of options \<longrightarrow>
           (\<forall>t \<le> clock (snd (generateProductImage env prompt options w)) + stdTTL * 1000.
              cache_get (imageCache (snd (generateProductImage env prompt options w))) t
                (createCacheKey prompt options) = Some r)))
   \<and> (CacheSet k \<in> set (new_events w (snd (generateProductImage env prompt options w)))
        \<longleftrightarrow> (\<exists>r. fst (generateProductImage env prompt options w) = Inr r \<and> \<not> fromCache r)
            \<and> useCache_of options \<and> k = createCacheKey prompt options)
   \<and> stdTTL = 3600"
proof (cases "fst (generateProductImage env prompt options w)")
  case (Inl e)
  then show ?thesis
    using generateProductImage_thrown(1)[OF Inl] generateProductImage_thrown(2)[OF Inl, of k]
    by (simp add: stdTTL_def)
next
  case (Inr r)
  show ?thesis
  proof (cases "fromCache r")
    case True
    from generateProductImage_served_from_cache(5)[OF Inr True]
    show ?thesis using Inr True by (simp add: stdTTL_def)
  next
    case False
    note g = generateProductImage_generated[OF Inr False]
    show ?thesis
      using Inr False g(6) g(7)[of k] by (simp add: cache_set_fresh) (simp add: stdTTL_def)
  qed
qed

theorem cache_written_only_on_success_witness:
  "cache_get (imageCache (snd (generateProductImage env_up ''red bag'' default_options
       (initial_world 5000)))) (5900 + 1800000)
     ''image_dall-e-3_1024x1024_standard_vivid_red_bag''
     = Some \<lparr>imageUrl = ''https://img/red bag'', revisedPrompt = None, fromCache = False,
             attempts = 1\<rparr>
   \<and> imageCache (snd (generateProductImage env_down ''red bag'' default_options
       (initial_world 5000))) = imageCache (initial_world 5000)"
proof -
  have r: "fst (generateProductImage env_up ''red bag'' default_options (initial_world 5000))
     = Inr \<lparr>imageUrl = ''https://img/red bag'', revisedPrompt = None, fromCache = False,
             attempts = 1\<rparr>"
    by (simp add: run_defs)
  have c: "clock (snd (generateProductImage env_up ''red bag'' default_options
             (initial_world 5000))) = 5900"
    by (simp add: run_defs)
  have d: "fst (generateProductImage env_down ''red bag'' default_options (initial_world 5000))
     = Inl \<lparr>message = ''Failed to generate image after 3 attempts: connect ETIMEDOUT'',
            status = 500\<rparr>"
    by (simp add: run_defs decimal_values)
  have u: "useCache_of default_options" by (simp add: useCache_of_def)
  have f: "\<not> fromCache \<lparr>imageUrl = ''https://img/red bag'', revisedPrompt = None,
             fromCache = False, attempts = 1\<rparr>"
    by simp
  note up = cache_written_only_on_success[of env_up "''red bag''" default_options
        "initial_world 5000" "''k''", THEN conjunct1, unfolded r sum.case, THEN conjunct2,
        rule_format, OF conjI[OF f u], of "5900 + 1800000", unfolded c createCacheKey_red_bag]
  note down = cache_written_only_on_success[of env_down "''red bag''" default_options
        "initial_world 5000" "''k''", THEN conjunct1, unfolded d sum.case]
  have "(5900::int) + 1800000 \<le> 5900 + stdTTL * 1000" by (simp add: stdTTL_def)
  with up down show ?thesis by simp
qed

lemma elapse_fields [simp]:
  "sent (elapse idle w) = sent w"
  "imageCache (elapse idle w) = imageCache w"
  "lastApiCall (elapse idle w) = lastApiCall w"
  "clock (elapse idle w) = clock w + int idle"
  "trace (elapse idle w) = trace w"
  by (simp_all add: elapse_def)

lemma generateProductImage_uncached_events:
  assumes "\<not> useCache_of options"
  shows "filter cache_event (new_events w (snd (generateProductImage env prompt options w))) = []"
proof (cases "prompt \<noteq> [] \<and> truthy (OPENAI_API_KEY env)")
  case False
  then show ?thesis by (auto simp add: generateProductImage_def new_events_def)
next
  case True
  then have call: "generateProductImage env prompt options w
                     = attemptLoop env prompt options 1 None w"
    using assms by (simp add: generateProductImage_uncached)
  from attemptLoop_cache_events[of env prompt options 1 None w] assms obtain evs where
    "trace (snd (attemptLoop env prompt options 1 None w)) = trace w @ evs"
    "filter cache_event evs = []"
    by (auto split: sum.splits)
  then show ?thesis unfolding call by simp
qed

lemma generateProductImage_uncached_store:
  assumes "\<not> useCache_of options"
  shows "imageCache (snd (generateProductImage env prompt options w)) = imageCache w"
proof (cases "fst (generateProductImage env prompt options w)")
  case (Inl e)
  then show ?thesis by (rule generateProductImage_thrown(1))
next
  case (Inr r)
  have "\<not> fromCache r"
    using generateProductImage_served_from_cache(3)[OF Inr] assms by blast
  from generateProductImage_generated(6)[OF Inr this] assms show ?thesis by simp
qed

text \<open>
  C7. Take a call with \<open>useCache = false\<close>. It neither reads nor writes the cache: its
  trace has no cache event and the store after the call is the store before it. A result
  it returns is never marked as served from the cache: it comes from a request of this
  call. When the prompt is not empty and the credential is configured, the call is the
  retry loop from attempt 1, which sends a request whenever \<open>maxRetries\<close> is at least 1.
  The same holds for the same call made again later: the store is still the one before
  the first call, and the second call sends requests of its own.
\<close>

theorem uncached_call_bypasses_cache:
  assumes "useCache options = Some False"
  shows "imageCache (snd (generateProductImage env prompt options w)) = imageCache w
    \<and> filter cache_event (new_events w (snd (generateProductImage env prompt options w))) = []
    \<and> (\<forall>r. fst (generateProductImage env prompt options w) = Inr r \<longrightarrow>
          \<not> fromCache r \<and> 1 \<le> attempts r \<and>
          int (sent (snd (generateProductImage env prompt options w))) = int (sent w) + attempts r)
    \<and> (prompt \<noteq> [] \<and> truthy (OPENAI_API_KEY env) \<longrightarrow>
          generateProductImage env prompt options w = attemptLoop env prompt options 1 None w \<and>
          (1 \<le> floor_of (maxRetries_of options) \<longrightarrow>
             sent w < sent (snd (generateProductImage env prompt options w))))
    \<and> imageCache (snd (generateProductImage env prompt options
          (elapse idle (snd (generateProductImage env prompt options w))))) = imageCache w
    \<and> filter cache_event
          (new_events (elapse idle (snd (generateProductImage env prompt options w)))
             (snd (generateProductImage env prompt options
                (elapse idle (snd (generateProductImage env prompt options w)))))) = []
    \<and> (prompt \<noteq> [] \<and> truthy (OPENAI_API_KEY env) \<and> 1 \<le> floor_of (maxRetries_of options) \<longrightarrow>
          sent (snd (generateProductImage env prompt options w))
            < sent (snd (generateProductImage env prompt options
                (elapse idle (snd (generateProductImage env prompt options w))))))"
proof -
  have off: "\<not> useCache_of options" using assms by (simp add: useCache_of_def)
  have store: "imageCache (snd (generateProductImage env prompt options v)) = imageCache v" for v
    using off by (rule generateProductImage_uncached_store)
  have events: "filter cache_event (new_events v (snd (generateProductImage env prompt options v)))
                  = []" for v
    using off by (rule generateProductImage_uncached_events)
  have fresh: "\<not> fromCache r \<and> 1 \<le> attempts r \<and>
          int (sent (snd (generateProductImage env prompt options w))) = int (sent w) + attempts r"
    if r: "fst (generateProductImage env prompt options w) = Inr r" for r
  proof -
    have n: "\<not> fromCache r"
      using generateProductImage_served_from_cache(3)[OF r] off by blast
    from generateProductImage_generated(3,5)[OF r n] n show ?thesis by simp
  qed
  have loop: "generateProductImage env prompt options v = attemptLoop env prompt options 1 None v \<and>
          (1 \<le> floor_of (maxRetries_of options) \<longrightarrow>
             sent v < sent (snd (generateProductImage env prompt options v)))"
    if "prompt \<noteq> []" "truthy (OPENAI_API_KEY env)" for v
    using that off by (simp add: generateProductImage_uncached attemptLoop_sends)
  have again: "imageCache (snd (generateProductImage env prompt options
          (elapse idle (snd (generateProductImage env prompt options w))))) = imageCache w"
    by (simp add: store)
  have more: "sent (snd (generateProductImage env prompt options w))
            < sent (snd (generateProductImage env prompt options
                (elapse idle (snd (generateProductImage env prompt options w)))))"
    if "prompt \<noteq> []" "truthy (OPENAI_API_KEY env)" "1 \<le> floor_of (maxRetries_of options)"
    using loop[OF that(1,2), of "elapse idle (snd (generateProductImage env prompt options w))",
        THEN conjunct2] that(3)
    by simp
  show ?thesis
    using store[of w] events[of w]
      events[of "elapse idle (snd (generateProductImage env prompt options w))"]
      fresh loop[of w] again more
    by (intro conjI allI impI) blast+
qed

theorem uncached_call_bypasses_cache_witness:
  "imageCache (snd (generateProductImage env_up ''red bag'' (default_options\<lparr>useCache := Some False\<rparr>)
       (initial_world 5000))) = imageCache (initial_world 5000)
   \<and> sent (initial_world 5000)
       < sent (snd (generateProductImage env_up ''red bag''
                  (default_options\<lparr>useCache := Some False\<rparr>) (initial_world 5000)))
   \<and> sent (snd (generateProductImage env_up ''red bag''
                  (default_options\<lparr>useCache := Some False\<rparr>) (initial_world 5000)))
       < sent (snd (generateProductImage env_up ''red bag''
            (default_options\<lparr>useCache := Some False\<rparr>)
            (elapse 60000 (snd (generateProductImage env_up ''red bag''
               (default_options\<lparr>useCache := Some False\<rparr>) (initial_world 5000))))))"
proof -
  let ?options = "default_options\<lparr>useCache := Some False\<rparr>"
  have u: "useCache ?options = Some False" by simp
  have p: "''red bag'' \<noteq> []" by simp
  have k: "truthy (OPENAI_API_KEY env_up)" by (simp add: env_up_def truthy_def)
  have m: "1 \<le> floor_of (maxRetries_of ?options)" by (simp add: maxRetries_of_def)
  note t = uncached_call_bypasses_cache[OF u, of env_up "''red bag''" "initial_world 5000" 60000]
  from t p k m show ?thesis by blast
qed

lemma attemptLoop_never_from_cache:
  assumes "fst (attemptLoop env prompt options 1 None v) = Inr r"
  shows "\<not> fromCache r" and "1 \<le> attempts r"
    and "int (sent (snd (attemptLoop env prompt options 1 None v))) = int (sent v) + attempts r"
  using attemptLoop_result[of env prompt options 1 None v] assms by simp_all

text \<open>
  C4. Take a call made when the entry stored under its key was inserted more than 3600
  seconds ago. The cache gives nothing for the key, and the entry is not returned: a
  result of the call is never marked as served from the cache, it comes from a request
  of this call. When the prompt is not empty and the credential is configured, the call
  is the retry loop from attempt 1 (after the read of the cache, when caching is on),
  which sends a request whenever \<open>maxRetries\<close> is at least 1.
\<close>

theorem expired_entry_is_a_miss:
  assumes "imageCache w (createCacheKey prompt options) = Some (stale, inserted)"
    and "inserted + 3600 * 1000 < clock w"
  shows "cache_get (imageCache w) (clock w) (createCacheKey prompt options) = None
    \<and> (\<forall>r. fst (generateProductImage env prompt options w) = Inr r \<longrightarrow>
          \<not> fromCache r \<and> 1 \<le> attempts r \<and>
          int (sent (snd (generateProductImage env prompt options w))) = int (sent w) + attempts r)
    \<and> (prompt \<noteq> [] \<and> truthy (OPENAI_API_KEY env) \<longrightarrow>
          generateProductImage env prompt options w
            = attemptLoop env prompt options 1 None
                (if useCache_of options
                 then record_event (CacheGet (createCacheKey prompt options)) w else w) \<and>
          (1 \<le> floor_of (maxRetries_of options) \<longrightarrow>
             sent w < sent (snd (generateProductImage env prompt options w))))"
proof -
  let ?v = "if useCache_of options
            then record_event (CacheGet (createCacheKey prompt options)) w else w"
  have none: "cache_get (imageCache w) (clock w) (createCacheKey prompt options) = None"
    using assms by (simp add: cache_get_def stdTTL_def)
  have call: "generateProductImage env prompt options w = attemptLoop env prompt options 1 None ?v"
    if "prompt \<noteq> []" "truthy (OPENAI_API_KEY env)"
    using that none
    by (simp add: generateProductImage_miss generateProductImage_uncached)
  have v: "sent ?v = sent w" by simp
  have fresh: "\<not> fromCache r \<and> 1 \<le> attempts r \<and>
          int (sent (snd (generateProductImage env prompt options w))) = int (sent w) + attempts r"
    if r: "fst (generateProductImage env prompt options w) = Inr r" for r
  proof -
    note c = call[OF generateProductImage_returns[OF r]]
    from attemptLoop_never_from_cache[of env prompt options ?v r] r v show ?thesis
      unfolding c by simp
  qed
  have sends: "sent w < sent (snd (generateProductImage env prompt options w))"
    if "prompt \<noteq> []" "truthy (OPENAI_API_KEY env)" "1 \<le> floor_of (maxRetries_of options)"
    using attemptLoop_sends[OF that(3), of ?v env prompt None] v
    unfolding call[OF that(1,2)] by simp
  show ?thesis
    using none call fresh sends by (intro conjI allI impI) blast+
qed

theorem expired_entry_is_a_miss_witness:
  "fst (generateProductImage env_up ''red bag'' default_options
          ((initial_world 3700000)
             \<lparr>imageCache := [''image_dall-e-3_1024x1024_standard_vivid_red_bag'' \<mapsto>
                (\<lparr>imageUrl = ''https://old'', revisedPrompt = None, fromCache = False,
                  attempts = 1\<rparr>, 5000)]\<rparr>))
     = Inr \<lparr>imageUrl = ''https://img/red bag'', revisedPrompt = None, fromCache = False,
            attempts = 1\<rparr>
   \<and> sent ((initial_world 3700000)
             \<lparr>imageCache := [''image_dall-e-3_1024x1024_standard_vivid_red_bag'' \<mapsto>
                (\<lparr>imageUrl = ''https://old'', revisedPrompt = None, fromCache = False,
                  attempts = 1\<rparr>, 5000)]\<rparr>)
       < sent (snd (generateProductImage env_up ''red bag'' default_options
          ((initial_world 3700000)
             \<lparr>imageCache := [''image_dall-e-3_1024x1024_standard_vivid_red_bag'' \<mapsto>
                (\<lparr>imageUrl = ''https://old'', revisedPrompt = None, fromCache = False,
                  attempts = 1\<rparr>, 5000)]\<rparr>)))"
proof -
  let ?old = "\<lparr>imageUrl = ''https://old'', revisedPrompt = None, fromCache = False,
               attempts = 1\<rparr>"
  let ?w = "(initial_world 3700000)
             \<lparr>imageCache := [''image_dall-e-3_1024x1024_standard_vivid_red_bag'' \<mapsto>
                (?old, 5000)]\<rparr>"
  have p: "''red bag'' \<noteq> []" by simp
  have k: "truthy (OPENAI_API_KEY env_up)" by (simp add: env_up_def truthy_def)
  have c: "imageCache ?w (createCacheKey ''red bag'' default_options) = Some (?old, 5000)"
    by (simp add: createCacheKey_red_bag)
  have t: "(5000::int) + 3600 * 1000 < clock ?w" by (simp add: initial_world_def)
  have m: "1 \<le> floor_of (maxRetries_of default_options)" by (simp add: maxRetries_of_def)
  have r: "fst (generateProductImage env_up ''red bag'' default_options ?w)
     = Inr \<lparr>imageUrl = ''https://img/red bag'', revisedPrompt = None, fromCache = False,
            attempts = 1\<rparr>"
    by (simp add: run_defs createCacheKey_red_bag)
  have s: "sent ?w < sent (snd (generateProductImage env_up ''red bag'' default_options ?w))"
    using expired_entry_is_a_miss[OF c t, of env_up] p k m by blast
  show ?thesis using r s by (intro conjI)
qed

text \<open>A call that went to the service with caching on leaves its result in the cache,
  where a later call with a prompt of the same key finds it until the time to live ends.\<close>

lemma generated_then_served:
  assumes first: "fst (generateProductImage env prompt options w) = Inr r"
    and generated: "\<not> fromCache r"
    and caching: "useCache_of options"
    and same_key: "createCacheKey prompt' options = createCacheKey prompt options"
    and nonempty: "prompt' \<noteq> []"
    and in_time: "t \<le> clock (snd (generateProductImage env prompt options w)) + stdTTL * 1000"
  shows "generateProductImage env prompt' options
           ((snd (generateProductImage env prompt options w))\<lparr>clock := t\<rparr>)
         = (Inr (r\<lparr>fromCache := True, attempts := 0\<rparr>),
            record_event (CacheGet (createCacheKey prompt options))
              ((snd (generateProductImage env prompt options w))\<lparr>clock := t\<rparr>))"
proof -
  let ?w' = "snd (generateProductImage env prompt options w)"
  have k: "truthy (OPENAI_API_KEY env)" using first by (rule generateProductImage_returns)
  have "imageCache ?w' = cache_set (imageCache w) (clock ?w') (createCacheKey prompt options) r"
    using generateProductImage_generated(6)[OF first generated] caching by simp
  then have "cache_get (imageCache (?w'\<lparr>clock := t\<rparr>)) (clock (?w'\<lparr>clock := t\<rparr>))
               (createCacheKey prompt' options) = Some r"
    using in_time same_key by (simp add: cache_set_fresh)
  from generateProductImage_hit[OF nonempty k caching this] same_key show ?thesis by simp
qed

text \<open>
  C3. Take a call with a prompt that is not empty, a configured credential and caching on,
  made when the store holds under the key of the call an entry that was inserted no more
  than 3600 seconds ago. The call returns the
  entry with \<open>fromCache = true\<close> and \<open>attempts = 0\<close>, and its only effect is the read of
  the cache: no request is sent. In particular, when a call has returned a result of the
  service with caching on, the same call made again no later than 3600 seconds after the
  first one ended returns that result from the cache and sends nothing.
\<close>

theorem live_entry_is_served:
  "(prompt \<noteq> [] \<and> truthy (OPENAI_API_KEY env) \<and> useCache_of options \<and>
    imageCache w (createCacheKey prompt options) = Some (cached, inserted) \<and>
    clock w \<le> inserted + 3600 * 1000 \<longrightarrow>
      generateProductImage env prompt options w =
        (Inr (cached\<lparr>fromCache := True, attempts := 0\<rparr>),
         record_event (CacheGet (createCacheKey prompt options)) w) \<and>
      sent (snd (generateProductImage env prompt options w)) = sent w \<and>
      post_times (new_events w (snd (generateProductImage env prompt options w))) = [])
   \<and> (fst (generateProductImage env prompt options w) = Inr r \<and> \<not> fromCache r \<and>
       useCache_of options \<and>
       t \<le> clock (snd (generateProductImage env prompt options w)) + 3600 * 1000 \<longrightarrow>
      fst (generateProductImage env prompt options
             ((snd (generateProductImage env prompt options w))\<lparr>clock := t\<rparr>))
        = Inr (r\<lparr>fromCache := True, attempts := 0\<rparr>) \<and>
      sent (snd (generateProductImage env prompt options
             ((snd (generateProductImage env prompt options w))\<lparr>clock := t\<rparr>)))
        = sent (snd (generateProductImage env prompt options w)))"
proof (intro conjI impI)
  assume h: "prompt \<noteq> [] \<and> truthy (OPENAI_API_KEY env) \<and> useCache_of options \<and>
    imageCache w (createCacheKey prompt options) = Some (cached, inserted) \<and>
    clock w \<le> inserted + 3600 * 1000"
  then have "cache_get (imageCache w) (clock w) (createCacheKey prompt options) = Some cached"
    by (simp add: cache_get_def stdTTL_def)
  with h have hit: "generateProductImage env prompt options w =
        (Inr (cached\<lparr>fromCache := True, attempts := 0\<rparr>),
         record_event (CacheGet (createCacheKey prompt options)) w)"
    by (simp add: generateProductImage_hit)
  show "generateProductImage env prompt options w =
        (Inr (cached\<lparr>fromCache := True, attempts := 0\<rparr>),
         record_event (CacheGet (createCacheKey prompt options)) w)"
    by (rule hit)
  show "sent (snd (generateProductImage env prompt options w)) = sent w"
    by (simp add: hit)
  show "post_times (new_events w (snd (generateProductImage env prompt options w))) = []"
    by (simp add: hit)
next
  assume h: "fst (generateProductImage env prompt options w) = Inr r \<and> \<not> fromCache r \<and>
       useCache_of options \<and>
       t \<le> clock (snd (generateProductImage env prompt options w)) + 3600 * 1000"
  then have p: "prompt \<noteq> []" using generateProductImage_returns(1) by blast
  have "t \<le> clock (snd (generateProductImage env prompt options w)) + stdTTL * 1000"
    using h by (simp add: stdTTL_def)
  with h p have again: "generateProductImage env prompt options
           ((snd (generateProductImage env prompt options w))\<lparr>clock := t\<rparr>)
         = (Inr (r\<lparr>fromCache := True, attempts := 0\<rparr>),
            record_event (CacheGet (createCacheKey prompt options))
              ((snd (generateProductImage env prompt options w))\<lparr>clock := t\<rparr>))"
    by (intro generated_then_served) simp_all
  show "fst (generateProductImage env prompt options
             ((snd (generateProductImage env prompt options w))\<lparr>clock := t\<rparr>))
        = Inr (r\<lparr>fromCache := True, attempts := 0\<rparr>)"
    by (simp add: again)
  show "sent (snd (generateProductImage env prompt options
             ((snd (generateProductImage env prompt options w))\<lparr>clock := t\<rparr>)))
        = sent (snd (generateProductImage env prompt options w))"
    by (simp add: again)
qed

theorem live_entry_is_served_witness:
  "fst (generateProductImage env_up ''red bag'' default_options
         ((snd (generateProductImage env_up ''red bag'' default_options (initial_world 5000)))
            \<lparr>clock := 1805900\<rparr>))
     = Inr \<lparr>imageUrl = ''https://img/red bag'', revisedPrompt = None, fromCache = True,
            attempts = 0\<rparr>
   \<and> sent (snd (generateProductImage env_up ''red bag'' default_options
         ((snd (generateProductImage env_up ''red bag'' default_options (initial_world 5000)))
            \<lparr>clock := 1805900\<rparr>))) = 1
   \<and> fst (generateProductImage env_down ''red bag'' default_options
         ((initial_world 3600000)
            \<lparr>imageCache := [''image_dall-e-3_1024x1024_standard_vivid_red_bag'' \<mapsto>
               (\<lparr>imageUrl = ''https://kept'', revisedPrompt = None, fromCache = False,
                 attempts = 2\<rparr>, 5000)]\<rparr>))
     = Inr \<lparr>imageUrl = ''https://kept'', revisedPrompt = None, fromCache = True,
            attempts = 0\<rparr>"
proof -
  let ?r = "\<lparr>imageUrl = ''https://img/red bag'', revisedPrompt = None, fromCache = False,
             attempts = 1\<rparr>"
  let ?kept = "\<lparr>imageUrl = ''https://kept'', revisedPrompt = None, fromCache = False,
             attempts = 2\<rparr>"
  let ?w = "(initial_world 3600000)
            \<lparr>imageCache := [''image_dall-e-3_1024x1024_standard_vivid_red_bag'' \<mapsto>
               (?kept, 5000)]\<rparr>"
  have r: "fst (generateProductImage env_up ''red bag'' default_options (initial_world 5000))
             = Inr ?r"
    by (simp add: run_defs)
  have c: "clock (snd (generateProductImage env_up ''red bag'' default_options
             (initial_world 5000))) = 5900"
    by (simp add: run_defs)
  have s: "sent (snd (generateProductImage env_up ''red bag'' default_options
             (initial_world 5000))) = 1"
    by (simp add: run_defs)
  have u: "useCache_of default_options" by (simp add: useCache_of_def)
  have h: "fst (generateProductImage env_up ''red bag'' default_options (initial_world 5000))
             = Inr ?r \<and> \<not> fromCache ?r \<and> useCache_of default_options \<and>
           1805900 \<le> clock (snd (generateProductImage env_up ''red bag'' default_options
             (initial_world 5000))) + 3600 * 1000"
    using r c u by simp
  note second = live_entry_is_served[of "''red bag''" env_up default_options "initial_world 5000"
      ?r 0 ?r 1805900, THEN conjunct2, rule_format, OF h]
  have live: "''red bag'' \<noteq> [] \<and> truthy (OPENAI_API_KEY env_down) \<and>
      useCache_of default_options \<and>
      imageCache ?w (createCacheKey ''red bag'' default_options) = Some (?kept, 5000) \<and>
      clock ?w \<le> 5000 + 3600 * 1000"
    using u by (simp add: env_down_def truthy_def createCacheKey_red_bag initial_world_def)
  note served = live_entry_is_served[of "''red bag''" env_down default_options ?w
      ?kept 5000 ?r 0, THEN conjunct1, rule_format, OF live, THEN conjunct1]
  have kept: "fst (generateProductImage env_down ''red bag'' default_options ?w)
     = Inr \<lparr>imageUrl = ''https://kept'', revisedPrompt = None, fromCache = True,
            attempts = 0\<rparr>"
    unfolding served by simp
  from second s kept show ?thesis by simp
qed

subsection \<open>The cache key\<close>





end
